theory Spec2Isabelle
  imports Main "HOL-Library.Word"
begin

unbundle bit_operations_syntax

section \<open>Machine integers and the event sink\<close>

text \<open>
  Bytes (\<open>unsigned char\<close>) are 8-bit words and the statistics (\<open>unsigned long\<close>, and
  \<open>long\<close> for the two displacement sums, on a 64-bit kernel) are 64-bit words, so their
  additions wrap as in C; a \<open>long\<close> is read with \<open>sint\<close>. Values of type \<open>int\<close> are HOL
  integers, wrapped to 32 bits by \<open>s32\<close> after each operation that can leave that range;
  indices of type \<open>unsigned int\<close> are naturals, wrapped by \<open>u32\<close>.
\<close>

type_synonym u8 = "8 word"
type_synonym ulong = "64 word"

definition s32 :: "int \<Rightarrow> int" where
  "s32 x = (x + 2 ^ 31) mod 2 ^ 32 - 2 ^ 31"

definition u32 :: "nat \<Rightarrow> nat" where
  "u32 n = n mod 2 ^ 32"

text \<open>Division of C: the quotient is truncated towards zero.\<close>

definition c_div :: "int \<Rightarrow> int \<Rightarrow> int" where
  "c_div a b = (if (a < 0) = (b < 0) then \<bar>a\<bar> div \<bar>b\<bar> else - (\<bar>a\<bar> div \<bar>b\<bar>))"

text \<open>
  The pointer \<open>dev->input\<close> is the event sink. It is modelled by the list of the calls
  made on it so far, oldest first: \<open>input_report_key\<close>, \<open>input_report_rel\<close> and
  \<open>input_sync\<close>.
\<close>

datatype rel_axis = REL_X | REL_Y | REL_WHEEL

datatype 'k input_event =
    Report_key 'k bool
  | Report_rel rel_axis int
  | Input_sync

datatype button = BTN_LEFT | BTN_RIGHT | BTN_MIDDLE | BTN_SIDE | BTN_EXTRA

datatype error = EINVAL | ERANGE

section \<open>The mouse driver\<close>

definition vmouse_BUFFER_SIZE :: nat where
  "vmouse_BUFFER_SIZE = 512"

definition PACKET_SIZE_STANDARD :: nat where
  "PACKET_SIZE_STANDARD = 3"

definition PACKET_SIZE_INTELLIMOUSE :: nat where
  "PACKET_SIZE_INTELLIMOUSE = 4"

text \<open>
  \<open>struct vmouse_device\<close>, without the tasklet, the lock and \<open>start_jiffies\<close>. The two
  module parameters \<open>dpi_multiplier\<close> and \<open>intellimouse_mode\<close>, statics of the module, are
  kept in the same record.
\<close>

record vmouse_device =
  input :: "button input_event list"
  buffer :: "u8 list"
  head :: nat
  tail :: nat
  packet :: "u8 list"
  packet_idx :: nat
  current_packet_size :: nat
  total_packets :: ulong
  total_clicks :: ulong
  left_clicks :: ulong
  right_clicks :: ulong
  middle_clicks :: ulong
  side_clicks :: ulong
  forward_clicks :: ulong
  scroll_events :: ulong
  total_dx :: ulong
  total_dy :: ulong
  total_distance :: ulong
  buffer_overflows :: ulong
  invalid_packets :: ulong
  dpi_multiplier :: int
  intellimouse_mode :: bool

definition PS2_LEFT_BTN :: u8 where "PS2_LEFT_BTN = 1"
definition PS2_RIGHT_BTN :: u8 where "PS2_RIGHT_BTN = 2"
definition PS2_MIDDLE_BTN :: u8 where "PS2_MIDDLE_BTN = 4"
definition PS2_ALWAYS_ONE :: u8 where "PS2_ALWAYS_ONE = 8"
definition PS2_X_SIGN :: u8 where "PS2_X_SIGN = 16"
definition PS2_Y_SIGN :: u8 where "PS2_Y_SIGN = 32"
definition PS2_X_OVERFLOW :: u8 where "PS2_X_OVERFLOW = 64"
definition PS2_Y_OVERFLOW :: u8 where "PS2_Y_OVERFLOW = 128"

definition IM_WHEEL_MASK :: u8 where "IM_WHEEL_MASK = 0x0F"
definition IM_BTN4 :: u8 where "IM_BTN4 = 16"
definition IM_BTN5 :: u8 where "IM_BTN5 = 32"

subsection \<open>The byte queue\<close>

text \<open>
  The array \<open>buffer\<close> is a list of \<open>BUFFER_SIZE\<close> bytes. The code indexes it with \<open>head\<close>
  and \<open>tail\<close> unchecked; both stay below \<open>BUFFER_SIZE\<close> in every state the driver
  builds, and the theorems below assume it.
\<close>

definition vmouse_buffer_empty :: "vmouse_device \<Rightarrow> bool" where
  "vmouse_buffer_empty dev \<longleftrightarrow> head dev = tail dev"

definition vmouse_buffer_full :: "vmouse_device \<Rightarrow> bool" where
  "vmouse_buffer_full dev \<longleftrightarrow> u32 (head dev + 1) mod vmouse_BUFFER_SIZE = tail dev"

definition vmouse_buffer_push :: "vmouse_device \<Rightarrow> u8 \<Rightarrow> vmouse_device" where
  "vmouse_buffer_push dev byte =
     (if \<not> vmouse_buffer_full dev
      then dev\<lparr>buffer := (buffer dev)[head dev := byte],
               head := u32 (head dev + 1) mod vmouse_BUFFER_SIZE\<rparr>
      else dev\<lparr>buffer_overflows := buffer_overflows dev + 1\<rparr>)"

text \<open>The result \<open>ret\<close> and the byte written through the pointer become an option.\<close>

definition vmouse_buffer_pop :: "vmouse_device \<Rightarrow> u8 option \<times> vmouse_device" where
  "vmouse_buffer_pop dev =
     (if \<not> vmouse_buffer_empty dev
      then (Some (buffer dev ! tail dev),
            dev\<lparr>tail := u32 (tail dev + 1) mod vmouse_BUFFER_SIZE\<rparr>)
      else (None, dev))"

subsection \<open>Decoding a packet\<close>

definition apply_dpi :: "int \<Rightarrow> int \<Rightarrow> int" where
  "apply_dpi dpi v = c_div (s32 (v * dpi)) 100"

text \<open>
  The scroll value of byte 3, a \<open>signed char\<close>: the low nibble, with the high nibble filled
  from bit 3.
\<close>

definition im_scroll :: "u8 \<Rightarrow> u8" where
  "im_scroll extra = (extra AND IM_WHEEL_MASK) OR (if extra AND 0x08 \<noteq> 0 then 0xF0 else 0x00)"

definition process_packet :: "vmouse_device \<Rightarrow> bool \<times> vmouse_device" where
  "process_packet dev =
     (let status = packet dev ! 0;
          dx_raw = sint (packet dev ! 1);
          dy_raw = sint (packet dev ! 2)
      in if status AND PS2_ALWAYS_ONE = 0
         then (False, dev\<lparr>invalid_packets := invalid_packets dev + 1\<rparr>)
         else
           let left = (status AND PS2_LEFT_BTN \<noteq> 0);
               right = (status AND PS2_RIGHT_BTN \<noteq> 0);
               middle = (status AND PS2_MIDDLE_BTN \<noteq> 0);
               dx = apply_dpi (dpi_multiplier dev) dx_raw;
               dy = s32 (- apply_dpi (dpi_multiplier dev) dy_raw);
               im = (current_packet_size dev = PACKET_SIZE_INTELLIMOUSE);
               extra = packet dev ! 3;
               scroll = (if im then im_scroll extra else 0);
               btn_side = (im \<and> extra AND IM_BTN4 \<noteq> 0);
               btn_forward = (im \<and> extra AND IM_BTN5 \<noteq> 0)
           in (True,
               dev\<lparr>total_packets := total_packets dev + 1,
                    left_clicks := left_clicks dev + of_bool left,
                    right_clicks := right_clicks dev + of_bool right,
                    middle_clicks := middle_clicks dev + of_bool middle,
                    side_clicks := side_clicks dev + of_bool btn_side,
                    forward_clicks := forward_clicks dev + of_bool btn_forward,
                    total_clicks := total_clicks dev + of_bool left + of_bool right
                      + of_bool middle + of_bool btn_side + of_bool btn_forward,
                    scroll_events := scroll_events dev + of_bool (scroll \<noteq> 0),
                    total_dx := total_dx dev + word_of_int dx,
                    total_dy := total_dy dev + word_of_int dy,
                    total_distance := total_distance dev + word_of_int (s32 (\<bar>dx\<bar> + \<bar>dy\<bar>)),
                    input := input dev @
                      [Report_key BTN_LEFT left, Report_key BTN_RIGHT right,
                       Report_key BTN_MIDDLE middle, Report_key BTN_SIDE btn_side,
                       Report_key BTN_EXTRA btn_forward]
                      @ (if dx \<noteq> 0 then [Report_rel REL_X dx] else [])
                      @ (if dy \<noteq> 0 then [Report_rel REL_Y dy] else [])
                      @ (if scroll \<noteq> 0 then [Report_rel REL_WHEEL (sint scroll)] else [])
                      @ [Input_sync]\<rparr>))"

subsection \<open>The tasklet\<close>

text \<open>
  The body of the loop of \<open>vmouse_tasklet_handler\<close>, for the byte just popped: store it,
  advance the fill index, and decode once the index has reached the packet size.
\<close>

definition vmouse_tasklet_byte :: "vmouse_device \<Rightarrow> u8 \<Rightarrow> vmouse_device" where
  "vmouse_tasklet_byte dev byte =
     (let d = dev\<lparr>packet := (packet dev)[packet_idx dev := byte],
                   packet_idx := u32 (packet_idx dev + 1)\<rparr>
      in if packet_idx d \<ge> current_packet_size d
         then (snd (process_packet d))\<lparr>packet_idx := 0\<rparr>
         else d)"

text \<open>
  The loop runs until a pop fails. It is a partial function: \<open>None\<close> is a loop that
  never ends, which the code does when \<open>head\<close> lies outside the array.
\<close>

partial_function (option) vmouse_tasklet_handler :: "vmouse_device \<Rightarrow> vmouse_device option" where
  "vmouse_tasklet_handler dev =
     (case vmouse_buffer_pop dev of
        (None, d) \<Rightarrow> Some d
      | (Some byte, d) \<Rightarrow> vmouse_tasklet_handler (vmouse_tasklet_byte d byte))"

subsection \<open>Initialisation and the control files\<close>

text \<open>\<open>vmouse_init\<close>: the device is zeroed by \<open>kzalloc\<close>, then the packet size is set.\<close>

definition vmouse_init :: "int \<Rightarrow> bool \<Rightarrow> vmouse_device" where
  "vmouse_init dpi im =
     \<lparr>input = [], buffer = replicate vmouse_BUFFER_SIZE 0, head = 0, tail = 0,
      packet = replicate PACKET_SIZE_INTELLIMOUSE 0, packet_idx = 0,
      current_packet_size = (if im then PACKET_SIZE_INTELLIMOUSE else PACKET_SIZE_STANDARD),
      total_packets = 0, total_clicks = 0, left_clicks = 0, right_clicks = 0,
      middle_clicks = 0, side_clicks = 0, forward_clicks = 0, scroll_events = 0,
      total_dx = 0, total_dy = 0, total_distance = 0, buffer_overflows = 0,
      invalid_packets = 0, dpi_multiplier = dpi, intellimouse_mode = im\<rparr>"

text \<open>
  \<open>tasklet_schedule\<close> only marks the tasklet as pending: the kernel runs
  \<open>vmouse_tasklet_handler\<close> later, in softirq context. The simulated interrupt is
  therefore the push alone, and a run of the tasklet is a step of its own.
\<close>

definition vmouse_simulate_irq :: "vmouse_device \<Rightarrow> u8 \<Rightarrow> vmouse_device" where
  "vmouse_simulate_irq dev byte = vmouse_buffer_push dev byte"

text \<open>
  The text written to a control file is taken after number parsing: \<open>kstrtoint\<close> gives a
  value or fails, and \<open>inject_packet_store\<close> sees the successive results of
  \<open>simple_strtoul\<close> on the rest of the text, \<open>None\<close> where no digit could be read.
\<close>

definition dpi_store :: "vmouse_device \<Rightarrow> int option \<Rightarrow> error + vmouse_device" where
  "dpi_store dev buf =
     (case buf of
        None \<Rightarrow> Inl EINVAL
      | Some val \<Rightarrow>
          if val < 10 \<or> val > 1000 then Inl EINVAL
          else Inr (dev\<lparr>dpi_multiplier := val\<rparr>))"

definition intellimouse_store :: "vmouse_device \<Rightarrow> int option \<Rightarrow> error + vmouse_device" where
  "intellimouse_store dev buf =
     (case buf of
        None \<Rightarrow> Inl EINVAL
      | Some val \<Rightarrow>
          Inr (dev\<lparr>intellimouse_mode := (val \<noteq> 0),
                   current_packet_size :=
                     (if val \<noteq> 0 then PACKET_SIZE_INTELLIMOUSE else PACKET_SIZE_STANDARD),
                   packet_idx := 0\<rparr>))"

text \<open>The parsing loop of \<open>inject_packet_store\<close>: at most \<open>expected\<close> values are read.\<close>

fun parse_bytes :: "nat \<Rightarrow> nat option list \<Rightarrow> error + nat list" where
  "parse_bytes 0 toks = Inr []"
| "parse_bytes (Suc k) [] = Inr []"
| "parse_bytes (Suc k) (None # toks) = Inl EINVAL"
| "parse_bytes (Suc k) (Some v # toks) =
     (if v > 0xFF then Inl EINVAL
      else case parse_bytes k toks of
             Inl e \<Rightarrow> Inl e
           | Inr vs \<Rightarrow> Inr (v # vs))"

text \<open>
  The loop of \<open>inject_packet_store\<close> that raises one simulated interrupt for each byte.
  The write runs in process context, and the pending tasklet runs when the kernel next
  handles softirqs: as a rule after the write has returned, but also between two pushes
  when a hardware interrupt arrives there. The list \<open>sched\<close> tells, for each push in turn,
  whether the tasklet ran right after it; past its end the tasklet did not run. The result
  is \<open>None\<close> when a run of the tasklet does not return.
\<close>

fun simulate_irqs :: "vmouse_device \<Rightarrow> nat list \<Rightarrow> bool list \<Rightarrow> vmouse_device option" where
  "simulate_irqs dev [] sched = Some dev"
| "simulate_irqs dev (v # vs) [] = simulate_irqs (vmouse_simulate_irq dev (of_nat v)) vs []"
| "simulate_irqs dev (v # vs) (False # sched) =
     simulate_irqs (vmouse_simulate_irq dev (of_nat v)) vs sched"
| "simulate_irqs dev (v # vs) (True # sched) =
     (case vmouse_tasklet_handler (vmouse_simulate_irq dev (of_nat v)) of
        None \<Rightarrow> None
      | Some d \<Rightarrow> simulate_irqs d vs sched)"

text \<open>
  Between \<open>tasklet_disable\<close> and \<open>tasklet_enable\<close> the state does not change:
  \<open>tasklet_disable\<close> waits for a handler that is running, not for one that is pending.
\<close>

definition inject_packet_store ::
  "vmouse_device \<Rightarrow> nat option list \<Rightarrow> bool list \<Rightarrow> (error + vmouse_device) option" where
  "inject_packet_store dev toks sched =
     (case parse_bytes (current_packet_size dev) toks of
        Inl e \<Rightarrow> Some (Inl e)
      | Inr bytes \<Rightarrow>
          let n = length bytes
          in if n \<noteq> 3 \<and> n \<noteq> 4 then Some (Inl EINVAL)
             else if n = 3 \<and> current_packet_size dev = PACKET_SIZE_INTELLIMOUSE
             then let saved = current_packet_size dev
                  in case simulate_irqs
                         (dev\<lparr>current_packet_size := PACKET_SIZE_STANDARD\<rparr>) bytes sched of
                       None \<Rightarrow> None
                     | Some d \<Rightarrow> Some (Inr (d\<lparr>current_packet_size := saved\<rparr>))
             else case simulate_irqs dev bytes sched of
                    None \<Rightarrow> None
                  | Some d \<Rightarrow> Some (Inr d))"

section \<open>The keyboard driver\<close>

definition vkbd_BUFFER_SIZE :: nat where
  "vkbd_BUFFER_SIZE = 256"

text \<open>
  A key code is an \<open>unsigned short\<close>. The constants \<open>KEY_*\<close> come from the kernel
  header \<open>linux/input-event-codes.h\<close>, which the repository does not hold; they have the
  values of that header. The driver only compares them with each other and with 0, the
  entry of an unmapped scan code.
\<close>

type_synonym keycode = "16 word"

definition KEY_ESC :: keycode where "KEY_ESC = 1"
definition KEY_1 :: keycode where "KEY_1 = 2"
definition KEY_2 :: keycode where "KEY_2 = 3"
definition KEY_3 :: keycode where "KEY_3 = 4"
definition KEY_4 :: keycode where "KEY_4 = 5"
definition KEY_5 :: keycode where "KEY_5 = 6"
definition KEY_6 :: keycode where "KEY_6 = 7"
definition KEY_7 :: keycode where "KEY_7 = 8"
definition KEY_8 :: keycode where "KEY_8 = 9"
definition KEY_9 :: keycode where "KEY_9 = 10"
definition KEY_0 :: keycode where "KEY_0 = 11"
definition KEY_MINUS :: keycode where "KEY_MINUS = 12"
definition KEY_EQUAL :: keycode where "KEY_EQUAL = 13"
definition KEY_BACKSPACE :: keycode where "KEY_BACKSPACE = 14"
definition KEY_TAB :: keycode where "KEY_TAB = 15"
definition KEY_Q :: keycode where "KEY_Q = 16"
definition KEY_W :: keycode where "KEY_W = 17"
definition KEY_E :: keycode where "KEY_E = 18"
definition KEY_R :: keycode where "KEY_R = 19"
definition KEY_T :: keycode where "KEY_T = 20"
definition KEY_Y :: keycode where "KEY_Y = 21"
definition KEY_U :: keycode where "KEY_U = 22"
definition KEY_I :: keycode where "KEY_I = 23"
definition KEY_O :: keycode where "KEY_O = 24"
definition KEY_P :: keycode where "KEY_P = 25"
definition KEY_LEFTBRACE :: keycode where "KEY_LEFTBRACE = 26"
definition KEY_RIGHTBRACE :: keycode where "KEY_RIGHTBRACE = 27"
definition KEY_ENTER :: keycode where "KEY_ENTER = 28"
definition KEY_LEFTCTRL :: keycode where "KEY_LEFTCTRL = 29"
definition KEY_A :: keycode where "KEY_A = 30"
definition KEY_S :: keycode where "KEY_S = 31"
definition KEY_D :: keycode where "KEY_D = 32"
definition KEY_F :: keycode where "KEY_F = 33"
definition KEY_G :: keycode where "KEY_G = 34"
definition KEY_H :: keycode where "KEY_H = 35"
definition KEY_J :: keycode where "KEY_J = 36"
definition KEY_K :: keycode where "KEY_K = 37"
definition KEY_L :: keycode where "KEY_L = 38"
definition KEY_SEMICOLON :: keycode where "KEY_SEMICOLON = 39"
definition KEY_APOSTROPHE :: keycode where "KEY_APOSTROPHE = 40"
definition KEY_GRAVE :: keycode where "KEY_GRAVE = 41"
definition KEY_LEFTSHIFT :: keycode where "KEY_LEFTSHIFT = 42"
definition KEY_BACKSLASH :: keycode where "KEY_BACKSLASH = 43"
definition KEY_Z :: keycode where "KEY_Z = 44"
definition KEY_X :: keycode where "KEY_X = 45"
definition KEY_C :: keycode where "KEY_C = 46"
definition KEY_V :: keycode where "KEY_V = 47"
definition KEY_B :: keycode where "KEY_B = 48"
definition KEY_N :: keycode where "KEY_N = 49"
definition KEY_M :: keycode where "KEY_M = 50"
definition KEY_COMMA :: keycode where "KEY_COMMA = 51"
definition KEY_DOT :: keycode where "KEY_DOT = 52"
definition KEY_SLASH :: keycode where "KEY_SLASH = 53"
definition KEY_RIGHTSHIFT :: keycode where "KEY_RIGHTSHIFT = 54"
definition KEY_KPASTERISK :: keycode where "KEY_KPASTERISK = 55"
definition KEY_LEFTALT :: keycode where "KEY_LEFTALT = 56"
definition KEY_SPACE :: keycode where "KEY_SPACE = 57"
definition KEY_CAPSLOCK :: keycode where "KEY_CAPSLOCK = 58"
definition KEY_F1 :: keycode where "KEY_F1 = 59"
definition KEY_F2 :: keycode where "KEY_F2 = 60"
definition KEY_F3 :: keycode where "KEY_F3 = 61"
definition KEY_F4 :: keycode where "KEY_F4 = 62"
definition KEY_F5 :: keycode where "KEY_F5 = 63"
definition KEY_F6 :: keycode where "KEY_F6 = 64"
definition KEY_F7 :: keycode where "KEY_F7 = 65"
definition KEY_F8 :: keycode where "KEY_F8 = 66"
definition KEY_F9 :: keycode where "KEY_F9 = 67"
definition KEY_F10 :: keycode where "KEY_F10 = 68"
definition KEY_NUMLOCK :: keycode where "KEY_NUMLOCK = 69"
definition KEY_SCROLLLOCK :: keycode where "KEY_SCROLLLOCK = 70"
definition KEY_KP7 :: keycode where "KEY_KP7 = 71"
definition KEY_KP8 :: keycode where "KEY_KP8 = 72"
definition KEY_KP9 :: keycode where "KEY_KP9 = 73"
definition KEY_KPMINUS :: keycode where "KEY_KPMINUS = 74"
definition KEY_KP4 :: keycode where "KEY_KP4 = 75"
definition KEY_KP5 :: keycode where "KEY_KP5 = 76"
definition KEY_KP6 :: keycode where "KEY_KP6 = 77"
definition KEY_KPPLUS :: keycode where "KEY_KPPLUS = 78"
definition KEY_KP1 :: keycode where "KEY_KP1 = 79"
definition KEY_KP2 :: keycode where "KEY_KP2 = 80"
definition KEY_KP3 :: keycode where "KEY_KP3 = 81"
definition KEY_KP0 :: keycode where "KEY_KP0 = 82"
definition KEY_KPDOT :: keycode where "KEY_KPDOT = 83"
definition KEY_102ND :: keycode where "KEY_102ND = 86"
definition KEY_F11 :: keycode where "KEY_F11 = 87"
definition KEY_F12 :: keycode where "KEY_F12 = 88"
definition KEY_LEFTMETA :: keycode where "KEY_LEFTMETA = 125"
definition KEY_RIGHTMETA :: keycode where "KEY_RIGHTMETA = 126"
definition KEY_COMPOSE :: keycode where "KEY_COMPOSE = 127"
definition KEY_POWER :: keycode where "KEY_POWER = 116"
definition KEY_SLEEP :: keycode where "KEY_SLEEP = 142"
definition KEY_WAKEUP :: keycode where "KEY_WAKEUP = 143"
definition KEY_SEARCH :: keycode where "KEY_SEARCH = 217"
definition KEY_BOOKMARKS :: keycode where "KEY_BOOKMARKS = 156"
definition KEY_UP :: keycode where "KEY_UP = 103"
definition KEY_PAGEUP :: keycode where "KEY_PAGEUP = 104"
definition KEY_LEFT :: keycode where "KEY_LEFT = 105"
definition KEY_RIGHT :: keycode where "KEY_RIGHT = 106"
definition KEY_END :: keycode where "KEY_END = 107"
definition KEY_DOWN :: keycode where "KEY_DOWN = 108"
definition KEY_PAGEDOWN :: keycode where "KEY_PAGEDOWN = 109"
definition KEY_INSERT :: keycode where "KEY_INSERT = 110"
definition KEY_DELETE :: keycode where "KEY_DELETE = 111"
definition KEY_MUTE :: keycode where "KEY_MUTE = 113"
definition KEY_VOLUMEDOWN :: keycode where "KEY_VOLUMEDOWN = 114"
definition KEY_VOLUMEUP :: keycode where "KEY_VOLUMEUP = 115"
definition KEY_PLAYPAUSE :: keycode where "KEY_PLAYPAUSE = 164"
definition KEY_STOPCD :: keycode where "KEY_STOPCD = 166"
definition KEY_PREVIOUSSONG :: keycode where "KEY_PREVIOUSSONG = 165"
definition KEY_NEXTSONG :: keycode where "KEY_NEXTSONG = 163"
definition KEY_HOMEPAGE :: keycode where "KEY_HOMEPAGE = 172"
definition KEY_MAIL :: keycode where "KEY_MAIL = 155"
definition KEY_CALC :: keycode where "KEY_CALC = 140"
definition KEY_COMPUTER :: keycode where "KEY_COMPUTER = 157"
definition KEY_KPENTER :: keycode where "KEY_KPENTER = 96"
definition KEY_RIGHTCTRL :: keycode where "KEY_RIGHTCTRL = 97"
definition KEY_RIGHTALT :: keycode where "KEY_RIGHTALT = 100"
definition KEY_HOME :: keycode where "KEY_HOME = 102"

definition scancode_to_keycode :: "keycode list" where
  "scancode_to_keycode =
     [
      0, KEY_ESC, KEY_1, KEY_2, KEY_3, KEY_4, KEY_5, KEY_6,
      KEY_7, KEY_8, KEY_9, KEY_0, KEY_MINUS, KEY_EQUAL, KEY_BACKSPACE, KEY_TAB,
      KEY_Q, KEY_W, KEY_E, KEY_R, KEY_T, KEY_Y, KEY_U, KEY_I,
      KEY_O, KEY_P, KEY_LEFTBRACE, KEY_RIGHTBRACE, KEY_ENTER, KEY_LEFTCTRL, KEY_A, KEY_S,
      KEY_D, KEY_F, KEY_G, KEY_H, KEY_J, KEY_K, KEY_L, KEY_SEMICOLON,
      KEY_APOSTROPHE, KEY_GRAVE, KEY_LEFTSHIFT, KEY_BACKSLASH, KEY_Z, KEY_X, KEY_C, KEY_V,
      KEY_B, KEY_N, KEY_M, KEY_COMMA, KEY_DOT, KEY_SLASH, KEY_RIGHTSHIFT, KEY_KPASTERISK,
      KEY_LEFTALT, KEY_SPACE, KEY_CAPSLOCK, KEY_F1, KEY_F2, KEY_F3, KEY_F4, KEY_F5,
      KEY_F6, KEY_F7, KEY_F8, KEY_F9, KEY_F10, KEY_NUMLOCK, KEY_SCROLLLOCK, KEY_KP7,
      KEY_KP8, KEY_KP9, KEY_KPMINUS, KEY_KP4, KEY_KP5, KEY_KP6, KEY_KPPLUS, KEY_KP1,
      KEY_KP2, KEY_KP3, KEY_KP0, KEY_KPDOT, 0, 0, KEY_102ND, KEY_F11,
      KEY_F12, 0, 0, KEY_LEFTMETA, KEY_RIGHTMETA, KEY_COMPOSE, KEY_POWER, KEY_SLEEP,
      0, 0, 0, KEY_WAKEUP, 0, KEY_SEARCH, KEY_BOOKMARKS, KEY_UP,
      KEY_PAGEUP, KEY_LEFT, KEY_RIGHT, KEY_END, KEY_DOWN, KEY_PAGEDOWN, KEY_INSERT, KEY_DELETE,
      0, KEY_MUTE, KEY_VOLUMEDOWN, KEY_VOLUMEUP, KEY_PLAYPAUSE, KEY_STOPCD, KEY_PREVIOUSSONG, KEY_NEXTSONG,
      KEY_HOMEPAGE, KEY_MAIL, KEY_CALC, KEY_COMPUTER, KEY_KPENTER, KEY_RIGHTCTRL, KEY_RIGHTALT, KEY_HOME
     ]"

text \<open>
  \<open>struct vkbd_device\<close>; the fields that the mouse device has too carry the prefix
  \<open>kbd\<close>. The module parameters \<open>repeat_delay\<close> and \<open>repeat_rate\<close> are kept in the record.
\<close>

record vkbd_device =
  kbd_input :: "keycode input_event list"
  kbd_buffer :: "u8 list"
  kbd_head :: nat
  kbd_tail :: nat
  shift_pressed :: bool
  ctrl_pressed :: bool
  alt_pressed :: bool
  caps_lock :: bool
  num_lock :: bool
  scroll_lock :: bool
  total_keypresses :: ulong
  total_keyreleases :: ulong
  kbd_buffer_overflows :: ulong
  unknown_scancodes :: ulong
  combo_detections :: ulong
  repeat_delay :: int
  repeat_rate :: int


definition vkbd_buffer_full :: "vkbd_device \<Rightarrow> bool" where
  "vkbd_buffer_full dev \<longleftrightarrow> u32 (kbd_head dev + 1) mod vkbd_BUFFER_SIZE = kbd_tail dev"

definition vkbd_buffer_push :: "vkbd_device \<Rightarrow> u8 \<Rightarrow> vkbd_device" where
  "vkbd_buffer_push dev scancode =
     (if \<not> vkbd_buffer_full dev
      then dev\<lparr>kbd_buffer := (kbd_buffer dev)[kbd_head dev := scancode],
               kbd_head := u32 (kbd_head dev + 1) mod vkbd_BUFFER_SIZE\<rparr>
      else dev\<lparr>kbd_buffer_overflows := kbd_buffer_overflows dev + 1\<rparr>)"


subsection \<open>Combos\<close>

text \<open>
  One test of \<open>check_combos\<close>: when the condition holds, the combo is counted. The
  message written to the kernel log is not part of the state.
\<close>

definition combo_if :: "bool \<Rightarrow> vkbd_device \<Rightarrow> vkbd_device" where
  "combo_if c dev = (if c then dev\<lparr>combo_detections := combo_detections dev + 1\<rparr> else dev)"

definition check_combos :: "vkbd_device \<Rightarrow> keycode \<Rightarrow> bool \<Rightarrow> vkbd_device" where
  "check_combos dev keycode pressed =
     (if \<not> pressed then dev
      else
        let d1 = combo_if (ctrl_pressed dev \<and> keycode = KEY_C) dev;
            d2 = combo_if (ctrl_pressed d1 \<and> keycode = KEY_Z) d1;
            d3 = combo_if (ctrl_pressed d2 \<and> keycode = KEY_V) d2;
            d4 = combo_if (ctrl_pressed d3 \<and> keycode = KEY_X) d3;
            d5 = combo_if (alt_pressed d4 \<and> keycode = KEY_TAB) d4;
            d6 = combo_if (alt_pressed d5 \<and> keycode = KEY_F4) d5
        in combo_if (ctrl_pressed d6 \<and> alt_pressed d6 \<and> keycode = KEY_DELETE) d6)"

subsection \<open>The tasklet\<close>

text \<open>
  The body of the loop of \<open>vkbd_tasklet_handler\<close>, for the scan code just popped. The two
  \<open>continue\<close> statements are the two branches that only count an unknown scan code.
\<close>

definition vkbd_tasklet_byte :: "vkbd_device \<Rightarrow> u8 \<Rightarrow> vkbd_device" where
  "vkbd_tasklet_byte dev byte =
     (let key_release = (byte AND 0x80 \<noteq> 0);
          scancode = byte AND 0x7F
      in if unat scancode \<ge> length scancode_to_keycode
         then dev\<lparr>unknown_scancodes := unknown_scancodes dev + 1\<rparr>
         else
           let keycode = scancode_to_keycode ! unat scancode
           in if keycode = 0
              then dev\<lparr>unknown_scancodes := unknown_scancodes dev + 1\<rparr>
              else
                let d1 = (if keycode = KEY_LEFTSHIFT \<or> keycode = KEY_RIGHTSHIFT
                          then dev\<lparr>shift_pressed := \<not> key_release\<rparr> else dev);
                    d2 = (if keycode = KEY_LEFTCTRL \<or> keycode = KEY_RIGHTCTRL
                          then d1\<lparr>ctrl_pressed := \<not> key_release\<rparr> else d1);
                    d3 = (if keycode = KEY_LEFTALT \<or> keycode = KEY_RIGHTALT
                          then d2\<lparr>alt_pressed := \<not> key_release\<rparr> else d2);
                    d4 = (if \<not> key_release \<and> keycode = KEY_CAPSLOCK
                          then d3\<lparr>caps_lock := \<not> caps_lock d3\<rparr> else d3);
                    d5 = (if \<not> key_release \<and> keycode = KEY_NUMLOCK
                          then d4\<lparr>num_lock := \<not> num_lock d4\<rparr> else d4);
                    d6 = (if \<not> key_release \<and> keycode = KEY_SCROLLLOCK
                          then d5\<lparr>scroll_lock := \<not> scroll_lock d5\<rparr> else d5);
                    d7 = check_combos d6 keycode (\<not> key_release);
                    d8 = (if key_release
                          then d7\<lparr>total_keyreleases := total_keyreleases d7 + 1\<rparr>
                          else d7\<lparr>total_keypresses := total_keypresses d7 + 1\<rparr>)
                in d8\<lparr>kbd_input := kbd_input d8 @
                         [Report_key keycode (\<not> key_release), Input_sync]\<rparr>)"


subsection \<open>Initialisation and the control files\<close>

definition vkbd_init :: "int \<Rightarrow> int \<Rightarrow> vkbd_device" where
  "vkbd_init delay rate =
     \<lparr>kbd_input = [], kbd_buffer = replicate vkbd_BUFFER_SIZE 0, kbd_head = 0, kbd_tail = 0,
      shift_pressed = False, ctrl_pressed = False, alt_pressed = False,
      caps_lock = False, num_lock = False, scroll_lock = False,
      total_keypresses = 0, total_keyreleases = 0, kbd_buffer_overflows = 0,
      unknown_scancodes = 0, combo_detections = 0,
      repeat_delay = delay, repeat_rate = rate\<rparr>"








section \<open>Runs of operations and observations on the state\<close>

text \<open>Pops in a row: the results, oldest first, and the state that is left.\<close>

fun vmouse_pops :: "nat \<Rightarrow> vmouse_device \<Rightarrow> u8 option list \<times> vmouse_device" where
  "vmouse_pops 0 dev = ([], dev)"
| "vmouse_pops (Suc n) dev =
     (case vmouse_buffer_pop dev of
        (r, d) \<Rightarrow> (case vmouse_pops n d of (rs, d') \<Rightarrow> (r # rs, d')))"

text \<open>
  The number of bytes a queue of capacity \<open>n\<close> holds, in the words of the specification:
  \<open>count = (head - tail) mod N\<close>.
\<close>

definition spec_count :: "nat \<Rightarrow> nat \<Rightarrow> nat \<Rightarrow> nat" where
  "spec_count n h t = nat ((int h - int t) mod int n)"

text \<open>A state whose indices lie inside the array, as in every state the driver builds.\<close>

definition vmouse_wf :: "vmouse_device \<Rightarrow> bool" where
  "vmouse_wf dev \<longleftrightarrow>
     length (buffer dev) = vmouse_BUFFER_SIZE \<and> head dev < vmouse_BUFFER_SIZE \<and>
     tail dev < vmouse_BUFFER_SIZE"

definition vkbd_wf :: "vkbd_device \<Rightarrow> bool" where
  "vkbd_wf dev \<longleftrightarrow>
     length (kbd_buffer dev) = vkbd_BUFFER_SIZE \<and> kbd_head dev < vkbd_BUFFER_SIZE \<and>
     kbd_tail dev < vkbd_BUFFER_SIZE"

text \<open>The bytes that wait in the queue, oldest first.\<close>

definition vmouse_queue :: "vmouse_device \<Rightarrow> u8 list" where
  "vmouse_queue dev =
     map (\<lambda>i. buffer dev ! ((tail dev + i) mod vmouse_BUFFER_SIZE))
       [0 ..< spec_count vmouse_BUFFER_SIZE (head dev) (tail dev)]"

definition vkbd_queue :: "vkbd_device \<Rightarrow> u8 list" where
  "vkbd_queue dev =
     map (\<lambda>i. kbd_buffer dev ! ((kbd_tail dev + i) mod vkbd_BUFFER_SIZE))
       [0 ..< spec_count vkbd_BUFFER_SIZE (kbd_head dev) (kbd_tail dev)]"

text \<open>
  The operations that reach a device from outside: a simulated interrupt, a run of the
  tasklet by the kernel, and a write to one of the control files. A write that is rejected
  leaves the state as it was. A step is \<open>None\<close> when the tasklet does not return.
\<close>

datatype vmouse_op =
    Simulate_irq u8
  | Run_tasklet
  | Inject_packet "nat option list" "bool list"
  | Dpi "int option"
  | Intellimouse "int option"

fun vmouse_step :: "vmouse_op \<Rightarrow> vmouse_device \<Rightarrow> vmouse_device option" where
  "vmouse_step (Simulate_irq b) dev = Some (vmouse_simulate_irq dev b)"
| "vmouse_step Run_tasklet dev = vmouse_tasklet_handler dev"
| "vmouse_step (Inject_packet toks sched) dev =
     (case inject_packet_store dev toks sched of
        None \<Rightarrow> None
      | Some (Inl e) \<Rightarrow> Some dev
      | Some (Inr d) \<Rightarrow> Some d)"
| "vmouse_step (Dpi buf) dev =
     Some (case dpi_store dev buf of Inl e \<Rightarrow> dev | Inr d \<Rightarrow> d)"
| "vmouse_step (Intellimouse buf) dev =
     Some (case intellimouse_store dev buf of Inl e \<Rightarrow> dev | Inr d \<Rightarrow> d)"



text \<open>
  The scroll value in the words of the specification: the low nibble of byte 3, read as a
  4-bit two's complement number. It is compared below with what \<open>process_packet\<close> reports.
\<close>

definition spec_scroll :: "u8 \<Rightarrow> int" where
  "spec_scroll extra =
     (if uint (extra AND 0x0F) < 8 then uint (extra AND 0x0F) else uint (extra AND 0x0F) - 16)"








text \<open>
  A run of operations from a state, and two conditions on the packet assembler: the fill
  index lies inside the packet and the packet size is 3 or 4; and, beyond that, the fill
  index is below the packet size.
\<close>

definition vmouse_frame_ok :: "vmouse_device \<Rightarrow> bool" where
  "vmouse_frame_ok d \<longleftrightarrow>
     length (packet d) = PACKET_SIZE_INTELLIMOUSE \<and> packet_idx d < PACKET_SIZE_INTELLIMOUSE \<and>
     (current_packet_size d = PACKET_SIZE_STANDARD \<or>
      current_packet_size d = PACKET_SIZE_INTELLIMOUSE)"

definition vmouse_frame_aligned :: "vmouse_device \<Rightarrow> bool" where
  "vmouse_frame_aligned d \<longleftrightarrow> vmouse_frame_ok d \<and> packet_idx d < current_packet_size d"

fun vmouse_run :: "vmouse_op list \<Rightarrow> vmouse_device \<Rightarrow> vmouse_device option" where
  "vmouse_run [] dev = Some dev"
| "vmouse_run (op # ops) dev =
     (case vmouse_step op dev of None \<Rightarrow> None | Some d \<Rightarrow> vmouse_run ops d)"




section \<open>Evaluation rules\<close>

lemmas key_defs =
  KEY_ESC_def KEY_1_def KEY_2_def KEY_3_def KEY_4_def
  KEY_5_def KEY_6_def KEY_7_def KEY_8_def KEY_9_def
  KEY_0_def KEY_MINUS_def KEY_EQUAL_def KEY_BACKSPACE_def KEY_TAB_def
  KEY_Q_def KEY_W_def KEY_E_def KEY_R_def KEY_T_def
  KEY_Y_def KEY_U_def KEY_I_def KEY_O_def KEY_P_def
  KEY_LEFTBRACE_def KEY_RIGHTBRACE_def KEY_ENTER_def KEY_LEFTCTRL_def KEY_A_def
  KEY_S_def KEY_D_def KEY_F_def KEY_G_def KEY_H_def
  KEY_J_def KEY_K_def KEY_L_def KEY_SEMICOLON_def KEY_APOSTROPHE_def
  KEY_GRAVE_def KEY_LEFTSHIFT_def KEY_BACKSLASH_def KEY_Z_def KEY_X_def
  KEY_C_def KEY_V_def KEY_B_def KEY_N_def KEY_M_def
  KEY_COMMA_def KEY_DOT_def KEY_SLASH_def KEY_RIGHTSHIFT_def KEY_KPASTERISK_def
  KEY_LEFTALT_def KEY_SPACE_def KEY_CAPSLOCK_def KEY_F1_def KEY_F2_def
  KEY_F3_def KEY_F4_def KEY_F5_def KEY_F6_def KEY_F7_def
  KEY_F8_def KEY_F9_def KEY_F10_def KEY_NUMLOCK_def KEY_SCROLLLOCK_def
  KEY_KP7_def KEY_KP8_def KEY_KP9_def KEY_KPMINUS_def KEY_KP4_def
  KEY_KP5_def KEY_KP6_def KEY_KPPLUS_def KEY_KP1_def KEY_KP2_def
  KEY_KP3_def KEY_KP0_def KEY_KPDOT_def KEY_102ND_def KEY_F11_def
  KEY_F12_def KEY_LEFTMETA_def KEY_RIGHTMETA_def KEY_COMPOSE_def KEY_POWER_def
  KEY_SLEEP_def KEY_WAKEUP_def KEY_SEARCH_def KEY_BOOKMARKS_def KEY_UP_def
  KEY_PAGEUP_def KEY_LEFT_def KEY_RIGHT_def KEY_END_def KEY_DOWN_def
  KEY_PAGEDOWN_def KEY_INSERT_def KEY_DELETE_def KEY_MUTE_def KEY_VOLUMEDOWN_def
  KEY_VOLUMEUP_def KEY_PLAYPAUSE_def KEY_STOPCD_def KEY_PREVIOUSSONG_def KEY_NEXTSONG_def
  KEY_HOMEPAGE_def KEY_MAIL_def KEY_CALC_def KEY_COMPUTER_def KEY_KPENTER_def
  KEY_RIGHTCTRL_def KEY_RIGHTALT_def KEY_HOME_def

lemmas ps2_defs =
  PS2_LEFT_BTN_def PS2_RIGHT_BTN_def PS2_MIDDLE_BTN_def PS2_ALWAYS_ONE_def
  IM_WHEEL_MASK_def IM_BTN4_def IM_BTN5_def PACKET_SIZE_STANDARD_def
  PACKET_SIZE_INTELLIMOUSE_def

lemmas kbd_eval =
  vkbd_tasklet_byte_def scancode_to_keycode_def check_combos_def combo_if_def key_defs

section \<open>The byte queue is first in, first out\<close>

subsection \<open>Arithmetic of the ring indices\<close>

lemma mod_lt2: "a < 2 * n \<Longrightarrow> (a::nat) mod n = (if a < n then a else a - n)"
  by (simp add: le_mod_geq)

lemma spec_count_cases:
  "h < n \<Longrightarrow> t < n \<Longrightarrow> spec_count n h t = (if t \<le> h then h - t else h + n - t)"
proof -
  assume h: "h < n" and t: "t < n"
  show ?thesis
  proof (cases "t \<le> h")
    case True
    then have "(int h - int t) mod int n = int h - int t" using h by (simp add: mod_pos_pos_trivial)
    then show ?thesis using True by (simp add: spec_count_def)
  next
    case False
    have "(int h - int t + int n) mod int n = int h - int t + int n"
      using False h t by (intro mod_pos_pos_trivial) linarith+
    moreover have "(int h - int t + int n) mod int n = (int h - int t) mod int n"
      by simp
    ultimately have "(int h - int t) mod int n = int h - int t + int n"
      by simp
    then show ?thesis using False h t by (simp add: spec_count_def)
  qed
qed

lemma u32_small: "n < 2 ^ 32 \<Longrightarrow> u32 n = n"
  by (simp add: u32_def)

lemma ring_full_iff:
  "h < n \<Longrightarrow> t < n \<Longrightarrow> Suc h mod n = t \<longleftrightarrow> spec_count n h t = n - 1"
  by (auto simp: spec_count_cases mod_lt2 split: if_splits)

lemma ring_empty_iff:
  "h < n \<Longrightarrow> t < n \<Longrightarrow> h = t \<longleftrightarrow> spec_count n h t = 0"
  by (auto simp: spec_count_cases split: if_splits)

lemma ring_push_count:
  "h < n \<Longrightarrow> t < n \<Longrightarrow> Suc h mod n \<noteq> t \<Longrightarrow>
   spec_count n (Suc h mod n) t = Suc (spec_count n h t)"
  by (auto simp: spec_count_cases mod_lt2 split: if_splits)

lemma ring_head_pos:
  "h < n \<Longrightarrow> t < n \<Longrightarrow> (t + spec_count n h t) mod n = h"
  by (auto simp: spec_count_cases mod_lt2 split: if_splits)

lemma ring_before_head:
  "h < n \<Longrightarrow> t < n \<Longrightarrow> i < spec_count n h t \<Longrightarrow> (t + i) mod n \<noteq> h"
  by (auto simp: spec_count_cases mod_lt2 split: if_splits)

lemma ring_pop_count:
  "h < n \<Longrightarrow> t < n \<Longrightarrow> h \<noteq> t \<Longrightarrow>
   spec_count n h (Suc t mod n) = spec_count n h t - 1"
  by (auto simp: spec_count_cases mod_lt2 split: if_splits)

lemma ring_pop_index:
  "(Suc t mod n + i) mod n = (t + Suc i) mod (n::nat)"
  by (simp add: mod_add_left_eq)


lemma vmouse_queue_length:
  "length (vmouse_queue dev) = spec_count vmouse_BUFFER_SIZE (head dev) (tail dev)"
  by (simp add: vmouse_queue_def)

lemma vmouse_full_iff:
  "vmouse_wf dev \<Longrightarrow>
   vmouse_buffer_full dev \<longleftrightarrow>
     spec_count vmouse_BUFFER_SIZE (head dev) (tail dev) = vmouse_BUFFER_SIZE - 1"
proof -
  assume wf: "vmouse_wf dev"
  then have "u32 (Suc (head dev)) = Suc (head dev)"
    by (simp add: u32_def vmouse_wf_def vmouse_BUFFER_SIZE_def)
  then show ?thesis
    using wf ring_full_iff [of "head dev" vmouse_BUFFER_SIZE "tail dev"]
    by (simp add: vmouse_buffer_full_def vmouse_wf_def)
qed

lemma vmouse_push_step:
  assumes wf: "vmouse_wf dev" and nf: "\<not> vmouse_buffer_full dev"
  shows "vmouse_buffer_push dev b =
           dev\<lparr>buffer := (buffer dev)[head dev := b],
               head := Suc (head dev) mod vmouse_BUFFER_SIZE\<rparr>"
proof -
  from wf have "u32 (Suc (head dev)) = Suc (head dev)"
    by (simp add: u32_def vmouse_wf_def vmouse_BUFFER_SIZE_def)
  then show ?thesis using nf by (simp add: vmouse_buffer_push_def)
qed

lemma vmouse_push_queue:
  assumes wf: "vmouse_wf dev" and nf: "\<not> vmouse_buffer_full dev"
  shows "vmouse_wf (vmouse_buffer_push dev b)"
    and "vmouse_queue (vmouse_buffer_push dev b) = vmouse_queue dev @ [b]"
    and "buffer_overflows (vmouse_buffer_push dev b) = buffer_overflows dev"
proof -
  let ?n = vmouse_BUFFER_SIZE
  let ?c = "spec_count ?n (head dev) (tail dev)"
  have h: "head dev < ?n" and t: "tail dev < ?n" and len: "length (buffer dev) = ?n"
    using wf by (simp_all add: vmouse_wf_def)
  have npos: "0 < ?n" using h by simp
  have eq: "vmouse_buffer_push dev b =
      dev\<lparr>buffer := (buffer dev)[head dev := b], head := Suc (head dev) mod ?n\<rparr>"
    by (rule vmouse_push_step [OF wf nf])
  show "vmouse_wf (vmouse_buffer_push dev b)"
    using wf npos by (simp add: eq vmouse_wf_def)
  show "buffer_overflows (vmouse_buffer_push dev b) = buffer_overflows dev"
    by (simp add: eq)
  have nfull: "Suc (head dev) mod ?n \<noteq> tail dev"
    using nf vmouse_full_iff [OF wf] ring_full_iff [OF h t] by simp
  have cnt: "spec_count ?n (Suc (head dev) mod ?n) (tail dev) = Suc ?c"
    using ring_push_count [OF h t nfull] by simp
  have keep: "(buffer dev)[head dev := b] ! ((tail dev + i) mod ?n)
      = buffer dev ! ((tail dev + i) mod ?n)" if "i < ?c" for i
  proof -
    have "(tail dev + i) mod ?n \<noteq> head dev" using ring_before_head [OF h t that] .
    then have "head dev \<noteq> (tail dev + i) mod ?n" by (rule not_sym)
    then show ?thesis by (rule nth_list_update_neq)
  qed
  have old: "map (\<lambda>i. (buffer dev)[head dev := b] ! ((tail dev + i) mod ?n)) [0 ..< ?c]
      = map (\<lambda>i. buffer dev ! ((tail dev + i) mod ?n)) [0 ..< ?c]"
    by (rule map_cong [OF refl]) (simp add: keep)
  have new: "(buffer dev)[head dev := b] ! ((tail dev + ?c) mod ?n) = b"
    using ring_head_pos [OF h t] h len by simp
  show "vmouse_queue (vmouse_buffer_push dev b) = vmouse_queue dev @ [b]"
    by (simp add: eq vmouse_queue_def cnt old new)
qed

lemma vmouse_pop_empty:
  assumes wf: "vmouse_wf dev" and e: "vmouse_queue dev = []"
  shows "vmouse_buffer_pop dev = (None, dev)"
proof -
  have h: "head dev < vmouse_BUFFER_SIZE" and t: "tail dev < vmouse_BUFFER_SIZE"
    using wf by (simp_all add: vmouse_wf_def)
  from e have "spec_count vmouse_BUFFER_SIZE (head dev) (tail dev) = 0"
    using vmouse_queue_length [of dev] by simp
  then have "head dev = tail dev" using ring_empty_iff [OF h t] by simp
  then show ?thesis by (simp add: vmouse_buffer_pop_def vmouse_buffer_empty_def)
qed

lemma vmouse_pop_queue:
  assumes wf: "vmouse_wf dev" and q: "vmouse_queue dev = x # xs"
  shows "vmouse_buffer_pop dev =
           (Some x, dev\<lparr>tail := Suc (tail dev) mod vmouse_BUFFER_SIZE\<rparr>)"
    and "vmouse_wf (dev\<lparr>tail := Suc (tail dev) mod vmouse_BUFFER_SIZE\<rparr>)"
    and "vmouse_queue (dev\<lparr>tail := Suc (tail dev) mod vmouse_BUFFER_SIZE\<rparr>) = xs"
proof -
  let ?n = vmouse_BUFFER_SIZE
  let ?c = "spec_count ?n (head dev) (tail dev)"
  have h: "head dev < ?n" and t: "tail dev < ?n"
    using wf by (simp_all add: vmouse_wf_def)
  have npos: "0 < ?n" using h by simp
  have c: "?c = Suc (length xs)" using vmouse_queue_length [of dev] q by simp
  then have ne: "head dev \<noteq> tail dev" using ring_empty_iff [OF h t] by simp
  have u: "u32 (Suc (tail dev)) = Suc (tail dev)"
    using t by (simp add: u32_def vmouse_BUFFER_SIZE_def)
  have up: "[0 ..< Suc (length xs)] = 0 # map Suc [0 ..< length xs]"
    by (simp add: upt_conv_Cons map_Suc_upt del: upt_Suc)
  have q': "x # xs = map (\<lambda>i. buffer dev ! ((tail dev + i) mod ?n)) (0 # map Suc [0 ..< length xs])"
    using q by (simp only: vmouse_queue_def c up)
  then have x: "x = buffer dev ! tail dev" using t by simp
  from q' have xs: "xs = map (\<lambda>i. buffer dev ! ((tail dev + Suc i) mod ?n)) [0 ..< length xs]"
    by (simp add: comp_def)
  show "vmouse_buffer_pop dev = (Some x, dev\<lparr>tail := Suc (tail dev) mod ?n\<rparr>)"
    using ne by (simp add: vmouse_buffer_pop_def vmouse_buffer_empty_def u x)
  show "vmouse_wf (dev\<lparr>tail := Suc (tail dev) mod ?n\<rparr>)"
    using wf npos by (simp add: vmouse_wf_def)
  have cnt: "spec_count ?n (head dev) (Suc (tail dev) mod ?n) = length xs"
    using ring_pop_count [OF h t ne] c by simp
  show "vmouse_queue (dev\<lparr>tail := Suc (tail dev) mod ?n\<rparr>) = xs"
    apply (simp add: vmouse_queue_def cnt ring_pop_index del: upt_Suc)
    apply (subst (2) xs)
    apply simp
    done
qed


lemma vmouse_push_all:
  "vmouse_wf dev \<Longrightarrow> length (vmouse_queue dev) + length bs \<le> vmouse_BUFFER_SIZE - 1 \<Longrightarrow>
   vmouse_wf (foldl vmouse_buffer_push dev bs) \<and>
   vmouse_queue (foldl vmouse_buffer_push dev bs) = vmouse_queue dev @ bs \<and>
   buffer_overflows (foldl vmouse_buffer_push dev bs) = buffer_overflows dev"
proof (induction bs arbitrary: dev)
  case Nil
  then show ?case by simp
next
  case (Cons b bs)
  have "length (vmouse_queue dev) \<noteq> vmouse_BUFFER_SIZE - 1"
    using Cons.prems(2) by simp
  then have nf: "\<not> vmouse_buffer_full dev"
    using vmouse_full_iff [OF Cons.prems(1)] by (simp add: vmouse_queue_length)
  note step = vmouse_push_queue [OF Cons.prems(1) nf, of b]
  have "length (vmouse_queue (vmouse_buffer_push dev b)) + length bs \<le> vmouse_BUFFER_SIZE - 1"
    using Cons.prems(2) by (simp add: step(2))
  from Cons.IH [OF step(1) this] show ?case
    by (simp add: step)
qed

lemma vmouse_pops_queue:
  "vmouse_wf dev \<Longrightarrow> vmouse_queue dev = xs @ ys \<Longrightarrow>
   \<exists>d. vmouse_pops (length xs) dev = (map Some xs, d) \<and> vmouse_wf d \<and>
       vmouse_queue d = ys \<and> buffer_overflows d = buffer_overflows dev"
proof (induction xs arbitrary: dev)
  case Nil
  then show ?case by simp
next
  case (Cons x xs)
  let ?d = "dev\<lparr>tail := Suc (tail dev) mod vmouse_BUFFER_SIZE\<rparr>"
  from Cons.prems(2) have q: "vmouse_queue dev = x # (xs @ ys)" by simp
  note step = vmouse_pop_queue [OF Cons.prems(1) q]
  from Cons.IH [OF step(2) step(3)] obtain d where
    d: "vmouse_pops (length xs) ?d = (map Some xs, d)" "vmouse_wf d"
       "vmouse_queue d = ys" "buffer_overflows d = buffer_overflows ?d"
    by blast
  show ?case using d by (simp add: step(1))
qed

lemma vmouse_pops_empty:
  "vmouse_buffer_pop d = (None, d) \<Longrightarrow> vmouse_pops k d = (replicate k None, d)"
  by (induction k) simp_all


text \<open>
  C1. Bytes pushed into an empty queue of the mouse device, at most \<open>BUFFER_SIZE - 1\<close> of
  them, come back from as many pops in the order of the pushes; the queue is then empty,
  every further pop returns nothing and leaves the state as it is, and no push was counted
  as an overflow.
\<close>

theorem vmouse_queue_fifo:
  assumes "length (buffer dev) = vmouse_BUFFER_SIZE"
    and "head dev = tail dev" and "tail dev < vmouse_BUFFER_SIZE"
    and "length bs \<le> vmouse_BUFFER_SIZE - 1"
  shows "\<exists>d. vmouse_pops (length bs) (foldl vmouse_buffer_push dev bs) = (map Some bs, d) \<and>
             vmouse_buffer_pop d = (None, d) \<and>
             vmouse_pops k d = (replicate k None, d) \<and>
             buffer_overflows d = buffer_overflows dev"
proof -
  have wf: "vmouse_wf dev" using assms by (simp add: vmouse_wf_def)
  have "spec_count vmouse_BUFFER_SIZE (head dev) (tail dev) = 0"
    using assms ring_empty_iff [of "head dev" vmouse_BUFFER_SIZE "tail dev"] by simp
  then have e: "vmouse_queue dev = []" using vmouse_queue_length [of dev] by simp
  let ?p = "foldl vmouse_buffer_push dev bs"
  have p: "vmouse_wf ?p" "vmouse_queue ?p = bs" "buffer_overflows ?p = buffer_overflows dev"
    using vmouse_push_all [OF wf, of bs] assms(4) e by simp_all
  from vmouse_pops_queue [OF p(1), of bs "[]"] p(2) obtain d where
    d: "vmouse_pops (length bs) ?p = (map Some bs, d)" "vmouse_wf d" "vmouse_queue d = []"
       "buffer_overflows d = buffer_overflows ?p"
    by auto
  have n: "vmouse_buffer_pop d = (None, d)" by (rule vmouse_pop_empty [OF d(2) d(3)])
  show ?thesis using d n p(3) vmouse_pops_empty [OF n, of k] by simp
qed

theorem vmouse_queue_fifo_witness:
  "length (buffer (vmouse_init 100 True)) = vmouse_BUFFER_SIZE \<and>
   head (vmouse_init 100 True) = tail (vmouse_init 100 True) \<and>
   tail (vmouse_init 100 True) < vmouse_BUFFER_SIZE \<and>
   length [0x08, 0x0A, 0x05 :: u8] \<le> vmouse_BUFFER_SIZE - 1 \<and>
   (\<exists>d. vmouse_pops (length [0x08, 0x0A, 0x05 :: u8])
             (foldl vmouse_buffer_push (vmouse_init 100 True) [0x08, 0x0A, 0x05])
           = (map Some [0x08, 0x0A, 0x05], d) \<and>
        vmouse_buffer_pop d = (None, d) \<and>
        vmouse_pops 2 d = (replicate 2 None, d) \<and>
        buffer_overflows d = buffer_overflows (vmouse_init 100 True))"
proof -
  have a: "length (buffer (vmouse_init 100 True)) = vmouse_BUFFER_SIZE"
    and b: "head (vmouse_init 100 True) = tail (vmouse_init 100 True)"
    and c: "tail (vmouse_init 100 True) < vmouse_BUFFER_SIZE"
    and d: "length [0x08, 0x0A, 0x05 :: u8] \<le> vmouse_BUFFER_SIZE - 1"
    by (simp_all add: vmouse_init_def vmouse_BUFFER_SIZE_def)
  show ?thesis
    by (intro conjI a b c d vmouse_queue_fifo [OF a b c d])
qed

section \<open>Overflow\<close>

text \<open>
  C2. A push into a full queue adds one to the overflow counter and changes nothing else:
  the byte is dropped, and the array, both indices and every other field keep their
  values. This holds in the mouse driver and in the keyboard driver.
\<close>

theorem push_full_counts_overflow:
  "(vmouse_buffer_full dev \<longrightarrow>
      vmouse_buffer_push dev byte = dev\<lparr>buffer_overflows := buffer_overflows dev + 1\<rparr>) \<and>
   (vkbd_buffer_full kdev \<longrightarrow>
      vkbd_buffer_push kdev byte =
        kdev\<lparr>kbd_buffer_overflows := kbd_buffer_overflows kdev + 1\<rparr>)"
  by (simp add: vmouse_buffer_push_def vkbd_buffer_push_def)

theorem push_full_counts_overflow_witness:
  "vmouse_buffer_full ((vmouse_init 100 True)\<lparr>head := 511\<rparr>) \<and>
   vmouse_buffer_push ((vmouse_init 100 True)\<lparr>head := 511\<rparr>) 0x41
     = (vmouse_init 100 True)\<lparr>head := 511, buffer_overflows := 1\<rparr> \<and>
   vkbd_buffer_full ((vkbd_init 250 33)\<lparr>kbd_head := 255\<rparr>) \<and>
   vkbd_buffer_push ((vkbd_init 250 33)\<lparr>kbd_head := 255\<rparr>) 0x41
     = (vkbd_init 250 33)\<lparr>kbd_head := 255, kbd_buffer_overflows := 1\<rparr>"
proof -
  have m: "vmouse_buffer_full ((vmouse_init 100 True)\<lparr>head := 511\<rparr>)"
    by (simp add: vmouse_buffer_full_def vmouse_init_def u32_def vmouse_BUFFER_SIZE_def)
  have k: "vkbd_buffer_full ((vkbd_init 250 33)\<lparr>kbd_head := 255\<rparr>)"
    by (simp add: vkbd_buffer_full_def vkbd_init_def u32_def vkbd_BUFFER_SIZE_def)
  show ?thesis
    using m k push_full_counts_overflow [of "(vmouse_init 100 True)\<lparr>head := 511\<rparr>" "0x41"
        "(vkbd_init 250 33)\<lparr>kbd_head := 255\<rparr>"]
    by (simp add: vmouse_init_def vkbd_init_def)
qed

section \<open>Decoding mouse packets\<close>

lemma nibble_cases:
  "(n::u8) \<le> 15 \<Longrightarrow> n \<in> {0, 1, 2, 3, 4, 5, 6, 7, 8, 9, 10, 11, 12, 13, 14, 15}"
proof -
  assume "n \<le> 15"
  then have "unat n \<le> 15" by (simp add: word_le_nat_alt)
  then have "unat n \<in> {0, 1, 2, 3, 4, 5, 6, 7, 8, 9, 10, 11, 12, 13, 14, 15}"
    by simp arith
  then have "word_of_nat (unat n)
      \<in> (word_of_nat ` {0, 1, 2, 3, 4, 5, 6, 7, 8, 9, 10, 11, 12, 13, 14, 15} :: u8 set)"
    by (rule imageI)
  then show ?thesis by simp
qed

lemma and_8_nibble: "(x::u8) AND 8 = (x AND 15) AND 8"
  by (simp add: word_bw_assocs)

lemma im_scroll_range: "- 8 \<le> sint (im_scroll x) \<and> sint (im_scroll x) \<le> 7"
proof -
  have "x AND 15 \<le> 15" by (rule word_and_le1)
  then have "x AND 15 \<in> {0, 1, 2, 3, 4, 5, 6, 7, 8, 9, 10, 11, 12, 13, 14, 15}"
    by (rule nibble_cases)
  then show ?thesis
    unfolding im_scroll_def IM_WHEEL_MASK_def and_8_nibble [of x]
    by auto
qed

lemma im_scroll_spec:
  "sint (im_scroll x) = spec_scroll x \<and> (im_scroll x = 0 \<longleftrightarrow> spec_scroll x = 0)"
proof -
  have "x AND 15 \<le> 15" by (rule word_and_le1)
  then have "x AND 15 \<in> {0, 1, 2, 3, 4, 5, 6, 7, 8, 9, 10, 11, 12, 13, 14, 15}"
    by (rule nibble_cases)
  then show ?thesis
    unfolding im_scroll_def spec_scroll_def IM_WHEEL_MASK_def and_8_nibble [of x]
    by auto
qed

lemma spec_scroll_range: "- 8 \<le> spec_scroll x \<and> spec_scroll x \<le> 7"
  using im_scroll_range [of x] im_scroll_spec [of x] by simp

text \<open>
  A whole 4-byte frame with bit 3 of byte 0 set, fed to the assembler in 4-byte mode
  from the fill index 0: the events reported and the count of scroll events, with the
  scroll value of the specification in the place of \<open>im_scroll\<close>.
\<close>

lemma four_byte_frame_reports:
  assumes v: "status AND PS2_ALWAYS_ONE \<noteq> 0"
  shows "input (vmouse_tasklet_byte (vmouse_tasklet_byte (vmouse_tasklet_byte
           (vmouse_tasklet_byte
             (dev\<lparr>packet := [p0, p1, p2, p3], packet_idx := 0,
                  current_packet_size := PACKET_SIZE_INTELLIMOUSE\<rparr>)
             status) xb) yb) extra)
         = input dev @
           [Report_key BTN_LEFT (status AND PS2_LEFT_BTN \<noteq> 0),
            Report_key BTN_RIGHT (status AND PS2_RIGHT_BTN \<noteq> 0),
            Report_key BTN_MIDDLE (status AND PS2_MIDDLE_BTN \<noteq> 0),
            Report_key BTN_SIDE (extra AND IM_BTN4 \<noteq> 0),
            Report_key BTN_EXTRA (extra AND IM_BTN5 \<noteq> 0)]
           @ (if apply_dpi (dpi_multiplier dev) (sint xb) \<noteq> 0
              then [Report_rel REL_X (apply_dpi (dpi_multiplier dev) (sint xb))] else [])
           @ (if s32 (- apply_dpi (dpi_multiplier dev) (sint yb)) \<noteq> 0
              then [Report_rel REL_Y (s32 (- apply_dpi (dpi_multiplier dev) (sint yb)))]
              else [])
           @ (if spec_scroll extra \<noteq> 0
              then [Report_rel REL_WHEEL (spec_scroll extra)] else [])
           @ [Input_sync]"
    and "scroll_events (vmouse_tasklet_byte (vmouse_tasklet_byte (vmouse_tasklet_byte
           (vmouse_tasklet_byte
             (dev\<lparr>packet := [p0, p1, p2, p3], packet_idx := 0,
                  current_packet_size := PACKET_SIZE_INTELLIMOUSE\<rparr>)
             status) xb) yb) extra)
         = scroll_events dev + of_bool (spec_scroll extra \<noteq> 0)"
  using v im_scroll_spec [of extra]
  by (simp_all add: vmouse_tasklet_byte_def process_packet_def Let_def u32_def
      PACKET_SIZE_INTELLIMOUSE_def PACKET_SIZE_STANDARD_def)

lemmas mouse_eval =
  vmouse_tasklet_byte_def process_packet_def Let_def ps2_defs u32_def apply_dpi_def
  s32_def c_div_def im_scroll_def

text \<open>
  C3. The bytes 0x09, 0x0A, 0x05 fed to the assembler in 3-byte mode report the left button
  down, the other buttons up, and the motion dx = 10, dy = -5 at the scale 100, and
  dx = 20, dy = -10 at the scale 200. In 4-byte mode the bytes 0x08, 0, 0, 0x01 report
  all five buttons up, no motion and the scroll value 1, and the bytes 0x08, 0, 0, 0xFF
  report the scroll value -1 (there bits 4 and 5 of byte 3 also report the side and the
  forward button down). The scroll value, the low nibble of byte 3 extended from its
  bit 3, lies between -8 and 7. For every 4-byte frame with bit 3 of byte 0 set, fed to
  the assembler in 4-byte mode, the wheel motion reported is the low nibble of byte 3
  read as a 4-bit two's complement number (\<open>spec_scroll\<close>, between -8 and 7): it is
  reported after the buttons and the motion exactly when it is not 0, and then one
  scroll event is counted.
\<close>

theorem decode_examples:
  "vmouse_tasklet_byte (vmouse_tasklet_byte (vmouse_tasklet_byte
       (dev\<lparr>packet := [p0, p1, p2, p3], packet_idx := 0,
            current_packet_size := PACKET_SIZE_STANDARD, dpi_multiplier := 100\<rparr>)
       0x09) 0x0A) 0x05
     = dev\<lparr>packet := [0x09, 0x0A, 0x05, p3], packet_idx := 0,
           current_packet_size := PACKET_SIZE_STANDARD, dpi_multiplier := 100,
           total_packets := total_packets dev + 1, left_clicks := left_clicks dev + 1,
           total_clicks := total_clicks dev + 1, total_dx := total_dx dev + 10,
           total_dy := total_dy dev - 5, total_distance := total_distance dev + 15,
           input := input dev @
             [Report_key BTN_LEFT True, Report_key BTN_RIGHT False,
              Report_key BTN_MIDDLE False, Report_key BTN_SIDE False,
              Report_key BTN_EXTRA False, Report_rel REL_X 10, Report_rel REL_Y (- 5),
              Input_sync]\<rparr> \<and>
   vmouse_tasklet_byte (vmouse_tasklet_byte (vmouse_tasklet_byte
       (dev\<lparr>packet := [p0, p1, p2, p3], packet_idx := 0,
            current_packet_size := PACKET_SIZE_STANDARD, dpi_multiplier := 200\<rparr>)
       0x09) 0x0A) 0x05
     = dev\<lparr>packet := [0x09, 0x0A, 0x05, p3], packet_idx := 0,
           current_packet_size := PACKET_SIZE_STANDARD, dpi_multiplier := 200,
           total_packets := total_packets dev + 1, left_clicks := left_clicks dev + 1,
           total_clicks := total_clicks dev + 1, total_dx := total_dx dev + 20,
           total_dy := total_dy dev - 10, total_distance := total_distance dev + 30,
           input := input dev @
             [Report_key BTN_LEFT True, Report_key BTN_RIGHT False,
              Report_key BTN_MIDDLE False, Report_key BTN_SIDE False,
              Report_key BTN_EXTRA False, Report_rel REL_X 20, Report_rel REL_Y (- 10),
              Input_sync]\<rparr> \<and>
   vmouse_tasklet_byte (vmouse_tasklet_byte (vmouse_tasklet_byte (vmouse_tasklet_byte
       (dev\<lparr>packet := [p0, p1, p2, p3], packet_idx := 0,
            current_packet_size := PACKET_SIZE_INTELLIMOUSE\<rparr>)
       0x08) 0x00) 0x00) 0x01
     = dev\<lparr>packet := [0x08, 0x00, 0x00, 0x01], packet_idx := 0,
           current_packet_size := PACKET_SIZE_INTELLIMOUSE,
           total_packets := total_packets dev + 1,
           scroll_events := scroll_events dev + 1,
           input := input dev @
             [Report_key BTN_LEFT False, Report_key BTN_RIGHT False,
              Report_key BTN_MIDDLE False, Report_key BTN_SIDE False,
              Report_key BTN_EXTRA False, Report_rel REL_WHEEL 1, Input_sync]\<rparr> \<and>
   vmouse_tasklet_byte (vmouse_tasklet_byte (vmouse_tasklet_byte (vmouse_tasklet_byte
       (dev\<lparr>packet := [p0, p1, p2, p3], packet_idx := 0,
            current_packet_size := PACKET_SIZE_INTELLIMOUSE\<rparr>)
       0x08) 0x00) 0x00) 0xFF
     = dev\<lparr>packet := [0x08, 0x00, 0x00, 0xFF], packet_idx := 0,
           current_packet_size := PACKET_SIZE_INTELLIMOUSE,
           total_packets := total_packets dev + 1,
           scroll_events := scroll_events dev + 1,
           side_clicks := side_clicks dev + 1, forward_clicks := forward_clicks dev + 1,
           total_clicks := total_clicks dev + 2,
           input := input dev @
             [Report_key BTN_LEFT False, Report_key BTN_RIGHT False,
              Report_key BTN_MIDDLE False, Report_key BTN_SIDE True,
              Report_key BTN_EXTRA True, Report_rel REL_WHEEL (- 1), Input_sync]\<rparr> \<and>
   - 8 \<le> sint (im_scroll extra) \<and> sint (im_scroll extra) \<le> 7 \<and>
   (status AND PS2_ALWAYS_ONE \<noteq> 0 \<longrightarrow>
      input (vmouse_tasklet_byte (vmouse_tasklet_byte (vmouse_tasklet_byte
          (vmouse_tasklet_byte
            (dev\<lparr>packet := [p0, p1, p2, p3], packet_idx := 0,
                 current_packet_size := PACKET_SIZE_INTELLIMOUSE\<rparr>)
            status) xb) yb) extra)
        = input dev @
          [Report_key BTN_LEFT (status AND PS2_LEFT_BTN \<noteq> 0),
           Report_key BTN_RIGHT (status AND PS2_RIGHT_BTN \<noteq> 0),
           Report_key BTN_MIDDLE (status AND PS2_MIDDLE_BTN \<noteq> 0),
           Report_key BTN_SIDE (extra AND IM_BTN4 \<noteq> 0),
           Report_key BTN_EXTRA (extra AND IM_BTN5 \<noteq> 0)]
          @ (if apply_dpi (dpi_multiplier dev) (sint xb) \<noteq> 0
             then [Report_rel REL_X (apply_dpi (dpi_multiplier dev) (sint xb))] else [])
          @ (if s32 (- apply_dpi (dpi_multiplier dev) (sint yb)) \<noteq> 0
             then [Report_rel REL_Y (s32 (- apply_dpi (dpi_multiplier dev) (sint yb)))]
             else [])
          @ (if spec_scroll extra \<noteq> 0
             then [Report_rel REL_WHEEL (spec_scroll extra)] else [])
          @ [Input_sync] \<and>
      scroll_events (vmouse_tasklet_byte (vmouse_tasklet_byte (vmouse_tasklet_byte
          (vmouse_tasklet_byte
            (dev\<lparr>packet := [p0, p1, p2, p3], packet_idx := 0,
                 current_packet_size := PACKET_SIZE_INTELLIMOUSE\<rparr>)
            status) xb) yb) extra)
        = scroll_events dev + of_bool (spec_scroll extra \<noteq> 0)) \<and>
   - 8 \<le> spec_scroll extra \<and> spec_scroll extra \<le> 7"
proof (intro conjI impI, goal_cases)
  case 5
  show ?case using im_scroll_range [of extra] by simp
next
  case 6
  show ?case using im_scroll_range [of extra] by simp
next
  case 7
  then show ?case by (rule four_byte_frame_reports(1))
next
  case 8
  then show ?case by (rule four_byte_frame_reports(2))
next
  case 9
  show ?case using spec_scroll_range [of extra] by simp
next
  case 10
  show ?case using spec_scroll_range [of extra] by simp
qed (simp_all add: mouse_eval)

text \<open>
  The frame 08 00 00 4F in 4-byte mode at the scale 100: the low nibble of byte 3 is 15,
  so the wheel motion reported is -1, and bit 6 of byte 3 has no effect.
\<close>

theorem decode_examples_witness:
  "(0x08 :: u8) AND PS2_ALWAYS_ONE \<noteq> 0 \<and>
   input (vmouse_tasklet_byte (vmouse_tasklet_byte (vmouse_tasklet_byte
       (vmouse_tasklet_byte
         ((vmouse_init 100 True)\<lparr>packet := [0, 0, 0, 0], packet_idx := 0,
              current_packet_size := PACKET_SIZE_INTELLIMOUSE\<rparr>)
         0x08) 0x00) 0x00) 0x4F)
     = [Report_key BTN_LEFT False, Report_key BTN_RIGHT False,
        Report_key BTN_MIDDLE False, Report_key BTN_SIDE False,
        Report_key BTN_EXTRA False, Report_rel REL_WHEEL (- 1), Input_sync] \<and>
   scroll_events (vmouse_tasklet_byte (vmouse_tasklet_byte (vmouse_tasklet_byte
       (vmouse_tasklet_byte
         ((vmouse_init 100 True)\<lparr>packet := [0, 0, 0, 0], packet_idx := 0,
              current_packet_size := PACKET_SIZE_INTELLIMOUSE\<rparr>)
         0x08) 0x00) 0x00) 0x4F) = 1 \<and>
   spec_scroll 0x4F = - 1"
proof -
  have v: "(0x08 :: u8) AND PS2_ALWAYS_ONE \<noteq> 0" by (simp add: ps2_defs)
  have s: "spec_scroll 0x4F = - 1" by (simp add: spec_scroll_def)
  have i: "input (vmouse_init 100 True) = []" "scroll_events (vmouse_init 100 True) = 0"
    "dpi_multiplier (vmouse_init 100 True) = 100"
    by (simp_all add: vmouse_init_def)
  have a: "apply_dpi 100 0 = 0" "s32 0 = 0"
    by (simp_all add: apply_dpi_def s32_def c_div_def)
  from decode_examples [where dev = "vmouse_init 100 True" and status = "0x08"
      and xb = "0x00" and yb = "0x00" and extra = "0x4F"
      and ?p0.0 = 0 and ?p1.0 = 0 and ?p2.0 = 0 and ?p3.0 = 0] v
  have "input (vmouse_tasklet_byte (vmouse_tasklet_byte (vmouse_tasklet_byte
       (vmouse_tasklet_byte
         ((vmouse_init 100 True)\<lparr>packet := [0, 0, 0, 0], packet_idx := 0,
              current_packet_size := PACKET_SIZE_INTELLIMOUSE\<rparr>)
         0x08) 0x00) 0x00) 0x4F)
     = input (vmouse_init 100 True) @
          [Report_key BTN_LEFT ((0x08 :: u8) AND PS2_LEFT_BTN \<noteq> 0),
           Report_key BTN_RIGHT ((0x08 :: u8) AND PS2_RIGHT_BTN \<noteq> 0),
           Report_key BTN_MIDDLE ((0x08 :: u8) AND PS2_MIDDLE_BTN \<noteq> 0),
           Report_key BTN_SIDE ((0x4F :: u8) AND IM_BTN4 \<noteq> 0),
           Report_key BTN_EXTRA ((0x4F :: u8) AND IM_BTN5 \<noteq> 0)]
          @ (if apply_dpi (dpi_multiplier (vmouse_init 100 True)) (sint (0x00 :: u8)) \<noteq> 0
             then [Report_rel REL_X
               (apply_dpi (dpi_multiplier (vmouse_init 100 True)) (sint (0x00 :: u8)))]
             else [])
          @ (if s32 (- apply_dpi (dpi_multiplier (vmouse_init 100 True))
                 (sint (0x00 :: u8))) \<noteq> 0
             then [Report_rel REL_Y
               (s32 (- apply_dpi (dpi_multiplier (vmouse_init 100 True))
                  (sint (0x00 :: u8))))]
             else [])
          @ (if spec_scroll 0x4F \<noteq> 0
             then [Report_rel REL_WHEEL (spec_scroll 0x4F)] else [])
          @ [Input_sync]"
    and "scroll_events (vmouse_tasklet_byte (vmouse_tasklet_byte (vmouse_tasklet_byte
          (vmouse_tasklet_byte
            ((vmouse_init 100 True)\<lparr>packet := [0, 0, 0, 0], packet_idx := 0,
                 current_packet_size := PACKET_SIZE_INTELLIMOUSE\<rparr>)
            0x08) 0x00) 0x00) 0x4F)
        = scroll_events (vmouse_init 100 True) + of_bool (spec_scroll 0x4F \<noteq> 0)"
    by blast+
  then show ?thesis using v s by (simp add: i a ps2_defs)
qed

text \<open>
  C4. A frame whose byte 0 has bit 3 clear is not decoded: \<open>process_packet\<close> returns false
  and adds one to the count of invalid packets. When the byte that completes such a frame
  arrives, the tasklet stores it, counts the invalid packet and sets the fill index to 0;
  no event is reported and every other statistic keeps its value.
\<close>

theorem invalid_frame_counted:
  "(packet dev ! 0 AND PS2_ALWAYS_ONE = 0 \<longrightarrow>
      process_packet dev = (False, dev\<lparr>invalid_packets := invalid_packets dev + 1\<rparr>)) \<and>
   (packet_idx dev < length (packet dev) \<and>
    current_packet_size dev \<le> u32 (packet_idx dev + 1) \<and>
    (packet dev)[packet_idx dev := byte] ! 0 AND PS2_ALWAYS_ONE = 0 \<longrightarrow>
      vmouse_tasklet_byte dev byte =
        dev\<lparr>packet := (packet dev)[packet_idx dev := byte], packet_idx := 0,
            invalid_packets := invalid_packets dev + 1\<rparr>)"
  by (simp add: process_packet_def vmouse_tasklet_byte_def Let_def)

theorem invalid_frame_counted_witness:
  "packet ((vmouse_init 100 False)\<lparr>packet := [0x00, 5, 0, 0], packet_idx := 2\<rparr>) ! 0
     AND PS2_ALWAYS_ONE = 0 \<and>
   process_packet ((vmouse_init 100 False)\<lparr>packet := [0x00, 5, 0, 0], packet_idx := 2\<rparr>)
     = (False, (vmouse_init 100 False)
          \<lparr>packet := [0x00, 5, 0, 0], packet_idx := 2, invalid_packets := 1\<rparr>) \<and>
   vmouse_tasklet_byte
       ((vmouse_init 100 False)\<lparr>packet := [0x00, 5, 0, 0], packet_idx := 2\<rparr>) 7
     = (vmouse_init 100 False)
         \<lparr>packet := [0x00, 5, 7, 0], packet_idx := 0, invalid_packets := 1\<rparr>"
  using invalid_frame_counted
    [of "(vmouse_init 100 False)\<lparr>packet := [0x00, 5, 0, 0], packet_idx := 2\<rparr>" 7]
  by (simp add: vmouse_init_def ps2_defs u32_def)

lemma and_low_nibble:
  "(s::u8) AND 0x0F = t AND 0x0F \<Longrightarrow> m AND 0x0F = m \<Longrightarrow> s AND m = t AND m"
proof -
  assume a: "s AND 0x0F = t AND 0x0F" and b: "m AND 0x0F = m"
  have "s AND m = s AND (0x0F AND m)" using b by (simp add: and.commute)
  also have "\<dots> = (s AND 0x0F) AND m" by (simp only: and.assoc)
  also have "\<dots> = (t AND 0x0F) AND m" by (simp only: a)
  also have "\<dots> = t AND (0x0F AND m)" by (simp only: and.assoc)
  also have "\<dots> = t AND m" using b by (simp add: and.commute)
  finally show ?thesis .
qed

text \<open>
  C10. Two frames that agree except in bits 4 to 7 of byte 0 (the sign and overflow bits)
  are decoded alike: \<open>process_packet\<close> returns the same result, reports the same events
  and makes the same changes to the statistics. The second frame is the first with byte 0
  replaced by a byte \<open>s\<close> with the same low nibble.
\<close>

theorem high_status_bits_ignored:
  "length (packet dev) = 4 \<Longrightarrow> s AND 0x0F = packet dev ! 0 AND 0x0F \<Longrightarrow>
   process_packet (dev\<lparr>packet := (packet dev)[0 := s]\<rparr>) =
     (fst (process_packet dev),
      (snd (process_packet dev))\<lparr>packet := (packet dev)[0 := s]\<rparr>)"
proof -
  assume len: "length (packet dev) = 4" and low: "s AND 0x0F = packet dev ! 0 AND 0x0F"
  have m: "s AND 1 = packet dev ! 0 AND 1" "s AND 2 = packet dev ! 0 AND 2"
    "s AND 4 = packet dev ! 0 AND 4" "s AND 8 = packet dev ! 0 AND 8"
    by (rule and_low_nibble [OF low], simp)+
  show ?thesis
  proof (cases "packet dev ! 0 AND 8 = 0")
    case True
    then show ?thesis using len by (simp add: process_packet_def Let_def ps2_defs m)
  next
    case False
    then show ?thesis using len
      by (simp add: process_packet_def Let_def ps2_defs m split del: if_split)
  qed
qed

theorem high_status_bits_ignored_witness:
  "length (packet ((vmouse_init 100 True)\<lparr>packet := [0x09, 0x0A, 0x05, 0x01]\<rparr>)) = 4 \<and>
   (0xF9 :: u8) AND 0x0F
     = packet ((vmouse_init 100 True)\<lparr>packet := [0x09, 0x0A, 0x05, 0x01]\<rparr>) ! 0 AND 0x0F \<and>
   process_packet ((vmouse_init 100 True)\<lparr>packet := [0xF9, 0x0A, 0x05, 0x01]\<rparr>) =
     (True, (vmouse_init 100 True)
        \<lparr>packet := [0xF9, 0x0A, 0x05, 0x01], total_packets := 1, left_clicks := 1,
         total_clicks := 1, scroll_events := 1, total_dx := 10, total_dy := - 5,
         total_distance := 15,
         input := [Report_key BTN_LEFT True, Report_key BTN_RIGHT False,
                   Report_key BTN_MIDDLE False, Report_key BTN_SIDE False,
                   Report_key BTN_EXTRA False, Report_rel REL_X 10, Report_rel REL_Y (- 5),
                   Report_rel REL_WHEEL 1, Input_sync]\<rparr>)"
proof -
  let ?d = "(vmouse_init 100 True)\<lparr>packet := [0x09, 0x0A, 0x05, 0x01]\<rparr>"
  have a: "length (packet ?d) = 4" by simp
  have b: "(0xF9 :: u8) AND 0x0F = packet ?d ! 0 AND 0x0F" by simp
  have c: "process_packet ?d =
     (True, (vmouse_init 100 True)
        \<lparr>packet := [0x09, 0x0A, 0x05, 0x01], total_packets := 1, left_clicks := 1,
         total_clicks := 1, scroll_events := 1, total_dx := 10, total_dy := - 5,
         total_distance := 15,
         input := [Report_key BTN_LEFT True, Report_key BTN_RIGHT False,
                   Report_key BTN_MIDDLE False, Report_key BTN_SIDE False,
                   Report_key BTN_EXTRA False, Report_rel REL_X 10, Report_rel REL_Y (- 5),
                   Report_rel REL_WHEEL 1, Input_sync]\<rparr>)"
    by (simp add: mouse_eval vmouse_init_def)
  show ?thesis
    using a b high_status_bits_ignored [OF a b] by (simp add: c)
qed

section \<open>Scan codes and combos\<close>

text \<open>
  C8. The scan codes 0x1E and 0x9E both map to the key A. The first adds one to the count
  of key presses and reports A pressed, the second adds one to the count of releases and
  reports A released; each report is followed by a sync. Nothing else changes, so the
  shift, ctrl and alt flags keep their values.
\<close>

theorem press_then_release_A:
  "scancode_to_keycode ! unat (0x1E AND 0x7F :: u8) = KEY_A \<and>
   scancode_to_keycode ! unat (0x9E AND 0x7F :: u8) = KEY_A \<and>
   vkbd_tasklet_byte dev 0x1E =
     dev\<lparr>total_keypresses := total_keypresses dev + 1,
         kbd_input := kbd_input dev @ [Report_key KEY_A True, Input_sync]\<rparr> \<and>
   vkbd_tasklet_byte (vkbd_tasklet_byte dev 0x1E) 0x9E =
     dev\<lparr>total_keypresses := total_keypresses dev + 1,
         total_keyreleases := total_keyreleases dev + 1,
         kbd_input := kbd_input dev @
           [Report_key KEY_A True, Input_sync, Report_key KEY_A False, Input_sync]\<rparr>"
  by (simp add: kbd_eval)

text \<open>
  A scan code with bit 7 set is a release. Whatever the key and the state, the tasklet
  body leaves the count of combos as it is: \<open>check_combos\<close> is called with
  \<open>pressed\<close> false, and no other statement writes the count.
\<close>

lemma release_keeps_combo_detections:
  assumes rel: "b AND 0x80 \<noteq> 0"
  shows "combo_detections (vkbd_tasklet_byte d b) = combo_detections d"
proof -
  define kr where "kr = (b AND 0x80 \<noteq> 0)"
  define sc where "sc = b AND 0x7F"
  define kc where "kc = scancode_to_keycode ! unat sc"
  define d1 where "d1 = (if kc = KEY_LEFTSHIFT \<or> kc = KEY_RIGHTSHIFT
                          then d\<lparr>shift_pressed := \<not> kr\<rparr> else d)"
  define d2 where "d2 = (if kc = KEY_LEFTCTRL \<or> kc = KEY_RIGHTCTRL
                          then d1\<lparr>ctrl_pressed := \<not> kr\<rparr> else d1)"
  define d3 where "d3 = (if kc = KEY_LEFTALT \<or> kc = KEY_RIGHTALT
                          then d2\<lparr>alt_pressed := \<not> kr\<rparr> else d2)"
  define d4 where "d4 = (if \<not> kr \<and> kc = KEY_CAPSLOCK
                          then d3\<lparr>caps_lock := \<not> caps_lock d3\<rparr> else d3)"
  define d5 where "d5 = (if \<not> kr \<and> kc = KEY_NUMLOCK
                          then d4\<lparr>num_lock := \<not> num_lock d4\<rparr> else d4)"
  define d6 where "d6 = (if \<not> kr \<and> kc = KEY_SCROLLLOCK
                          then d5\<lparr>scroll_lock := \<not> scroll_lock d5\<rparr> else d5)"
  define d7 where "d7 = check_combos d6 kc (\<not> kr)"
  define d8 where "d8 = (if kr then d7\<lparr>total_keyreleases := total_keyreleases d7 + 1\<rparr>
                          else d7\<lparr>total_keypresses := total_keypresses d7 + 1\<rparr>)"
  define d9 where "d9 = d8\<lparr>kbd_input := kbd_input d8 @ [Report_key kc (\<not> kr), Input_sync]\<rparr>"
  define u where "u = d\<lparr>unknown_scancodes := unknown_scancodes d + 1\<rparr>"
  have eq: "vkbd_tasklet_byte d b =
      (if unat sc \<ge> length scancode_to_keycode then u else if kc = 0 then u else d9)"
    unfolding vkbd_tasklet_byte_def Let_def kr_def sc_def kc_def d1_def d2_def d3_def
        d4_def d5_def d6_def d7_def d8_def d9_def u_def
    by (rule refl)
  have kr: "kr" using rel by (simp add: kr_def)
  have cu: "combo_detections u = combo_detections d" by (simp add: u_def)
  have c1: "combo_detections d1 = combo_detections d" by (simp add: d1_def)
  have c2: "combo_detections d2 = combo_detections d1" by (simp add: d2_def)
  have c3: "combo_detections d3 = combo_detections d2" by (simp add: d3_def)
  have c4: "combo_detections d4 = combo_detections d3" by (simp add: d4_def)
  have c5: "combo_detections d5 = combo_detections d4" by (simp add: d5_def)
  have c6: "combo_detections d6 = combo_detections d5" by (simp add: d6_def)
  have c7: "d7 = d6" using kr by (simp add: d7_def check_combos_def)
  have c8: "combo_detections d8 = combo_detections d7" by (simp add: d8_def)
  have c9: "combo_detections d9 = combo_detections d8" by (simp add: d9_def)
  have "combo_detections d9 = combo_detections d"
    using c1 c2 c3 c4 c5 c6 c7 c8 c9 by simp
  with cu show ?thesis by (simp only: eq if_split) simp
qed

text \<open>
  C9. After the scan code 0x1D (ctrl pressed), which detects no combo itself, the scan
  code 0x2E (C pressed) adds exactly one to the count of combos. When ctrl is released by
  0x9D before 0x2E arrives, the count does not change. On a release \<open>check_combos\<close>
  returns the state as it is, and the tasklet body, fed any scan code with the release
  bit (bit 7) set in any state, leaves the count of combos unchanged: a combo is counted
  on a press only.
\<close>

theorem ctrl_c_combo:
  "combo_detections (vkbd_tasklet_byte dev 0x1D) = combo_detections dev \<and>
   combo_detections (vkbd_tasklet_byte (vkbd_tasklet_byte dev 0x1D) 0x2E)
     = combo_detections dev + 1 \<and>
   combo_detections
       (vkbd_tasklet_byte (vkbd_tasklet_byte (vkbd_tasklet_byte dev 0x1D) 0x9D) 0x2E)
     = combo_detections dev \<and>
   check_combos dev keycode False = dev \<and>
   (byte AND 0x80 \<noteq> 0 \<longrightarrow>
      combo_detections (vkbd_tasklet_byte dev byte) = combo_detections dev)"
proof (intro conjI impI)
  assume "byte AND 0x80 \<noteq> 0"
  then show "combo_detections (vkbd_tasklet_byte dev byte) = combo_detections dev"
    by (rule release_keeps_combo_detections)
qed (simp_all add: kbd_eval)

text \<open>
  The release of C after Ctrl+C (the scan codes 0x1D, 0x2E, 0xAE from the initial state):
  the combo counted on the press of C is not counted again on its release.
\<close>

theorem ctrl_c_combo_witness:
  "(0xAE :: u8) AND 0x80 \<noteq> 0 \<and>
   combo_detections (vkbd_tasklet_byte (vkbd_init 250 33) 0x1D) = 0 \<and>
   combo_detections (vkbd_tasklet_byte (vkbd_tasklet_byte (vkbd_init 250 33) 0x1D) 0x2E) = 1 \<and>
   combo_detections (vkbd_tasklet_byte (vkbd_tasklet_byte (vkbd_tasklet_byte
       (vkbd_init 250 33) 0x1D) 0x2E) 0xAE) = 1"
proof -
  have r: "(0xAE :: u8) AND 0x80 \<noteq> 0" by simp
  have i: "combo_detections (vkbd_init 250 33) = 0" by (simp add: vkbd_init_def)
  show ?thesis
    using r i ctrl_c_combo [of "vkbd_init 250 33" 0 0]
      ctrl_c_combo [of "vkbd_tasklet_byte (vkbd_tasklet_byte (vkbd_init 250 33) 0x1D) 0x2E"
        0 "0xAE"]
    by simp
qed

section \<open>Evaluating the tasklet on a given state\<close>

lemma vmouse_handler_nonempty:
  "head d \<noteq> tail d \<Longrightarrow>
   vmouse_tasklet_handler d =
     vmouse_tasklet_handler
       (vmouse_tasklet_byte (d\<lparr>tail := u32 (tail d + 1) mod vmouse_BUFFER_SIZE\<rparr>)
          (buffer d ! tail d))"
  by (subst vmouse_tasklet_handler.simps)
    (simp add: vmouse_buffer_pop_def vmouse_buffer_empty_def)

lemma vmouse_handler_empty:
  "head d = tail d \<Longrightarrow> vmouse_tasklet_handler d = Some d"
  by (subst vmouse_tasklet_handler.simps)
    (simp add: vmouse_buffer_pop_def vmouse_buffer_empty_def)

lemma parse_bytes_numeral:
  "parse_bytes (numeral k) [] = Inr []"
  "parse_bytes (numeral k) (None # toks) = Inl EINVAL"
  "parse_bytes (numeral k) (Some v # toks) =
     (if v > 0xFF then Inl EINVAL
      else case parse_bytes (pred_numeral k) toks of
             Inl e \<Rightarrow> Inl e
           | Inr vs \<Rightarrow> Inr (v # vs))"
  by (simp_all add: numeral_eq_Suc)

lemmas queue_eval =
  vmouse_simulate_irq_def vmouse_buffer_push_def vmouse_buffer_full_def
  vmouse_buffer_pop_def vmouse_buffer_empty_def vmouse_BUFFER_SIZE_def u32_def

lemmas handler_eval = vmouse_handler_nonempty vmouse_handler_empty

lemma vmouse_init_packet:
  "vmouse_init dpi im =
     \<lparr>input = [], buffer = replicate vmouse_BUFFER_SIZE 0, head = 0, tail = 0,
      packet = [0, 0, 0, 0], packet_idx = 0,
      current_packet_size = (if im then PACKET_SIZE_INTELLIMOUSE else PACKET_SIZE_STANDARD),
      total_packets = 0, total_clicks = 0, left_clicks = 0, right_clicks = 0,
      middle_clicks = 0, side_clicks = 0, forward_clicks = 0, scroll_events = 0,
      total_dx = 0, total_dy = 0, total_distance = 0, buffer_overflows = 0,
      invalid_packets = 0, dpi_multiplier = dpi, intellimouse_mode = im\<rparr>"
  by (simp add: vmouse_init_def PACKET_SIZE_INTELLIMOUSE_def numeral_eq_Suc)




section \<open>Capacity of the queues\<close>

lemma vkbd_full_iff:
  "vkbd_wf dev \<Longrightarrow>
   vkbd_buffer_full dev \<longleftrightarrow>
     spec_count vkbd_BUFFER_SIZE (kbd_head dev) (kbd_tail dev) = vkbd_BUFFER_SIZE - 1"
proof -
  assume wf: "vkbd_wf dev"
  then have "u32 (Suc (kbd_head dev)) = Suc (kbd_head dev)"
    by (simp add: u32_def vkbd_wf_def vkbd_BUFFER_SIZE_def)
  then show ?thesis
    using wf ring_full_iff [of "kbd_head dev" vkbd_BUFFER_SIZE "kbd_tail dev"]
    by (simp add: vkbd_buffer_full_def vkbd_wf_def)
qed

text \<open>
  C6, as the code has it. The queue of the keyboard has 256 slots and the queue of the
  mouse 512. In both, with the indices inside the array, the queue reports full exactly
  when it holds one byte less than it has slots.
\<close>

theorem queue_capacity:
  "vkbd_BUFFER_SIZE = 256 \<and> vmouse_BUFFER_SIZE = 512 \<and>
   (vmouse_wf dev \<longrightarrow>
      (vmouse_buffer_full dev \<longleftrightarrow> length (vmouse_queue dev) = vmouse_BUFFER_SIZE - 1)) \<and>
   (vkbd_wf kdev \<longrightarrow>
      (vkbd_buffer_full kdev \<longleftrightarrow> length (vkbd_queue kdev) = vkbd_BUFFER_SIZE - 1))"
  using vmouse_full_iff [of dev] vkbd_full_iff [of kdev]
  by (simp add: vmouse_queue_def vkbd_queue_def vmouse_BUFFER_SIZE_def vkbd_BUFFER_SIZE_def)

theorem queue_capacity_witness:
  "vmouse_wf ((vmouse_init 100 True)\<lparr>head := 511\<rparr>) \<and>
   vmouse_buffer_full ((vmouse_init 100 True)\<lparr>head := 511\<rparr>) \<and>
   length (vmouse_queue ((vmouse_init 100 True)\<lparr>head := 511\<rparr>)) = 511 \<and>
   vkbd_wf ((vkbd_init 250 33)\<lparr>kbd_head := 255\<rparr>) \<and>
   vkbd_buffer_full ((vkbd_init 250 33)\<lparr>kbd_head := 255\<rparr>) \<and>
   length (vkbd_queue ((vkbd_init 250 33)\<lparr>kbd_head := 255\<rparr>)) = 255"
proof -
  have m: "vmouse_wf ((vmouse_init 100 True)\<lparr>head := 511\<rparr>)"
    by (simp add: vmouse_wf_def vmouse_init_def vmouse_BUFFER_SIZE_def)
  have k: "vkbd_wf ((vkbd_init 250 33)\<lparr>kbd_head := 255\<rparr>)"
    by (simp add: vkbd_wf_def vkbd_init_def vkbd_BUFFER_SIZE_def)
  have lm: "length (vmouse_queue ((vmouse_init 100 True)\<lparr>head := 511\<rparr>)) = 511"
    by (simp add: vmouse_queue_def vmouse_init_def vmouse_BUFFER_SIZE_def spec_count_def)
  have lk: "length (vkbd_queue ((vkbd_init 250 33)\<lparr>kbd_head := 255\<rparr>)) = 255"
    by (simp add: vkbd_queue_def vkbd_init_def vkbd_BUFFER_SIZE_def spec_count_def)
  show ?thesis
    using m k lm lk
      queue_capacity [of "(vmouse_init 100 True)\<lparr>head := 511\<rparr>"
        "(vkbd_init 250 33)\<lparr>kbd_head := 255\<rparr>"]
    by (simp add: vmouse_BUFFER_SIZE_def vkbd_BUFFER_SIZE_def)
qed

text \<open>
  The claim as it is written fails on the keyboard: its queue does not have 512 slots, and
  it reports full with 255 bytes, not with 511.
\<close>

theorem keyboard_capacity_counterexample:
  "vkbd_BUFFER_SIZE \<noteq> 512 \<and>
   vkbd_buffer_full ((vkbd_init 250 33)\<lparr>kbd_head := 255\<rparr>) \<and>
   length (vkbd_queue ((vkbd_init 250 33)\<lparr>kbd_head := 255\<rparr>)) \<noteq> 512 - 1"
  by (simp add: vkbd_BUFFER_SIZE_def vkbd_buffer_full_def vkbd_queue_def vkbd_init_def
      spec_count_def u32_def)

section \<open>The statistics over time\<close>

subsection \<open>Counters that grow\<close>































lemma inject_packet_store_cases:
  assumes r: "inject_packet_store d toks sched = Some (Inr d')"
  obtains bytes x where "length bytes = 3" "current_packet_size d = PACKET_SIZE_INTELLIMOUSE"
      "simulate_irqs (d\<lparr>current_packet_size := PACKET_SIZE_STANDARD\<rparr>) bytes sched = Some x"
      "d' = x\<lparr>current_packet_size := current_packet_size d\<rparr>"
  | bytes where "length bytes \<le> 4" "simulate_irqs d bytes sched = Some d'"
proof (cases "parse_bytes (current_packet_size d) toks")
  case (Inl e)
  with r show ?thesis by (simp add: inject_packet_store_def)
next
  case (Inr bytes)
  let ?t = "d\<lparr>current_packet_size := PACKET_SIZE_STANDARD\<rparr>"
  show ?thesis
  proof (cases "length bytes \<noteq> 3 \<and> length bytes \<noteq> 4")
    case True
    with r Inr show ?thesis by (simp add: inject_packet_store_def)
  next
    case n: False
    show ?thesis
    proof (cases "length bytes = 3 \<and> current_packet_size d = PACKET_SIZE_INTELLIMOUSE")
      case True
      show ?thesis
      proof (cases "simulate_irqs ?t bytes sched")
        case None
        with r Inr n True show ?thesis by (simp add: inject_packet_store_def)
      next
        case (Some x)
        with r Inr n True have "d' = x\<lparr>current_packet_size := current_packet_size d\<rparr>"
          by (simp add: inject_packet_store_def)
        with True Some that(1) [of bytes x] show ?thesis by simp
      qed
    next
      case False
      show ?thesis
      proof (cases "simulate_irqs d bytes sched")
        case None
        with r Inr n False show ?thesis by (simp add: inject_packet_store_def)
      next
        case (Some x)
        with r Inr n False have "d' = x" by (simp add: inject_packet_store_def)
        moreover have "length bytes \<le> 4" using n by auto
        ultimately show ?thesis using Some that(2) [of bytes] by simp
      qed
    qed
  qed
qed






subsection \<open>The keyboard\<close>

















subsection \<open>Every operation returns\<close>








section \<open>The fill index and the packet size\<close>

text \<open>
  In every state that a run of operations reaches from the initial state, whatever the
  moments at which the tasklet runs, the fill index is below the packet size.
\<close>

lemma process_packet_frame_fields:
  "packet (snd (process_packet d)) = packet d \<and>
   packet_idx (snd (process_packet d)) = packet_idx d \<and>
   current_packet_size (snd (process_packet d)) = current_packet_size d"
  by (cases "packet d ! 0 AND PS2_ALWAYS_ONE = 0")
    (simp_all add: process_packet_def Let_def split del: if_split)

lemma tasklet_byte_frame_fields:
  "length (packet (vmouse_tasklet_byte d b)) = length (packet d) \<and>
   current_packet_size (vmouse_tasklet_byte d b) = current_packet_size d \<and>
   packet_idx (vmouse_tasklet_byte d b) =
     (if current_packet_size d \<le> u32 (packet_idx d + 1) then 0 else u32 (packet_idx d + 1))"
  using process_packet_frame_fields
    [of "d\<lparr>packet := (packet d)[packet_idx d := b], packet_idx := u32 (packet_idx d + 1)\<rparr>"]
  by (simp add: vmouse_tasklet_byte_def Let_def)

lemma tasklet_byte_frame_ok:
  "vmouse_frame_ok d \<Longrightarrow> vmouse_frame_ok (vmouse_tasklet_byte d b)"
  by (auto simp: vmouse_frame_ok_def tasklet_byte_frame_fields u32_def ps2_defs)

lemma tasklet_byte_frame_aligned:
  "vmouse_frame_aligned d \<Longrightarrow> vmouse_frame_aligned (vmouse_tasklet_byte d b)"
  by (auto simp: vmouse_frame_aligned_def vmouse_frame_ok_def tasklet_byte_frame_fields
      u32_def ps2_defs)

lemma vmouse_pop_frame_fields:
  "vmouse_buffer_pop d = (r, d') \<Longrightarrow>
   packet d' = packet d \<and> packet_idx d' = packet_idx d \<and>
   current_packet_size d' = current_packet_size d"
  by (auto simp: vmouse_buffer_pop_def split: if_splits)

lemma vmouse_tasklet_handler_invariant:
  assumes run: "vmouse_tasklet_handler d = Some d'"
    and pop: "\<And>x r y. P x \<Longrightarrow> vmouse_buffer_pop x = (r, y) \<Longrightarrow> P y"
    and byte: "\<And>x b. P x \<Longrightarrow> P (vmouse_tasklet_byte x b)"
  shows "P d \<longrightarrow> P d'"
proof (rule vmouse_tasklet_handler.raw_induct [where P = "\<lambda>x y. P x \<longrightarrow> P y", OF _ run])
  fix handler dev y
  assume IH: "\<And>x y. handler x = Some y \<Longrightarrow> P x \<longrightarrow> P y"
    and body: "(case vmouse_buffer_pop dev of
                  (None, d) \<Rightarrow> Some d
                | (Some byte, d) \<Rightarrow> handler (vmouse_tasklet_byte d byte)) = Some y"
  obtain r d1 where p: "vmouse_buffer_pop dev = (r, d1)" by (cases "vmouse_buffer_pop dev")
  show "P dev \<longrightarrow> P y"
  proof
    assume "P dev"
    then have ok1: "P d1" using p by (rule pop)
    show "P y"
    proof (cases r)
      case None
      then show ?thesis using body p ok1 by simp
    next
      case (Some b)
      then have "handler (vmouse_tasklet_byte d1 b) = Some y" using body p by simp
      from IH [OF this] byte [OF ok1] show ?thesis by blast
    qed
  qed
qed

lemma vmouse_tasklet_handler_frame_ok:
  assumes "vmouse_tasklet_handler d = Some d'" and "vmouse_frame_ok d"
  shows "vmouse_frame_ok d'"
proof -
  have "vmouse_frame_ok d \<longrightarrow> vmouse_frame_ok d'"
    using assms(1)
  proof (rule vmouse_tasklet_handler_invariant)
    fix x r y
    assume "vmouse_frame_ok x" and "vmouse_buffer_pop x = (r, y)"
    then show "vmouse_frame_ok y"
      using vmouse_pop_frame_fields [of x r y] by (simp add: vmouse_frame_ok_def)
  next
    fix x b
    assume "vmouse_frame_ok x"
    then show "vmouse_frame_ok (vmouse_tasklet_byte x b)" by (rule tasklet_byte_frame_ok)
  qed
  with assms(2) show ?thesis by simp
qed

lemma vmouse_tasklet_handler_frame_aligned:
  assumes "vmouse_tasklet_handler d = Some d'" and "vmouse_frame_aligned d"
  shows "vmouse_frame_aligned d'"
proof -
  have "vmouse_frame_aligned d \<longrightarrow> vmouse_frame_aligned d'"
    using assms(1)
  proof (rule vmouse_tasklet_handler_invariant)
    fix x r y
    assume "vmouse_frame_aligned x" and "vmouse_buffer_pop x = (r, y)"
    then show "vmouse_frame_aligned y"
      using vmouse_pop_frame_fields [of x r y]
      by (simp add: vmouse_frame_aligned_def vmouse_frame_ok_def)
  next
    fix x b
    assume "vmouse_frame_aligned x"
    then show "vmouse_frame_aligned (vmouse_tasklet_byte x b)"
      by (rule tasklet_byte_frame_aligned)
  qed
  with assms(2) show ?thesis by simp
qed

lemma vmouse_push_frame_fields:
  "packet (vmouse_buffer_push d b) = packet d \<and>
   packet_idx (vmouse_buffer_push d b) = packet_idx d \<and>
   current_packet_size (vmouse_buffer_push d b) = current_packet_size d"
  by (simp add: vmouse_buffer_push_def)

lemma vmouse_push_frame_ok:
  "vmouse_frame_ok d \<Longrightarrow> vmouse_frame_ok (vmouse_simulate_irq d b)"
  by (simp add: vmouse_frame_ok_def vmouse_simulate_irq_def vmouse_push_frame_fields)

lemma vmouse_push_frame_aligned:
  "vmouse_frame_aligned d \<Longrightarrow> vmouse_frame_aligned (vmouse_simulate_irq d b)"
  by (simp add: vmouse_frame_aligned_def vmouse_frame_ok_def vmouse_simulate_irq_def
      vmouse_push_frame_fields)

lemma simulate_irqs_frame_ok:
  "simulate_irqs d vs sched = Some d' \<Longrightarrow> vmouse_frame_ok d \<Longrightarrow> vmouse_frame_ok d'"
proof (induction d vs sched rule: simulate_irqs.induct)
  case (1 dev sched)
  then show ?case by simp
next
  case (2 dev v vs)
  then show ?case using vmouse_push_frame_ok by simp
next
  case (3 dev v vs sched)
  then show ?case using vmouse_push_frame_ok by simp
next
  case (4 dev v vs sched)
  from "4.prems"(1) obtain d2 where
    h: "vmouse_tasklet_handler (vmouse_simulate_irq dev (of_nat v)) = Some d2"
    and r: "simulate_irqs d2 vs sched = Some d'"
    by (auto split: option.splits)
  have "vmouse_frame_ok d2"
    by (rule vmouse_tasklet_handler_frame_ok [OF h vmouse_push_frame_ok [OF "4.prems"(2)]])
  from "4.IH" [OF h r this] show ?case .
qed

lemma simulate_irqs_frame_aligned:
  "simulate_irqs d vs sched = Some d' \<Longrightarrow> vmouse_frame_aligned d \<Longrightarrow>
   vmouse_frame_aligned d'"
proof (induction d vs sched rule: simulate_irqs.induct)
  case (1 dev sched)
  then show ?case by simp
next
  case (2 dev v vs)
  then show ?case using vmouse_push_frame_aligned by simp
next
  case (3 dev v vs sched)
  then show ?case using vmouse_push_frame_aligned by simp
next
  case (4 dev v vs sched)
  from "4.prems"(1) obtain d2 where
    h: "vmouse_tasklet_handler (vmouse_simulate_irq dev (of_nat v)) = Some d2"
    and r: "simulate_irqs d2 vs sched = Some d'"
    by (auto split: option.splits)
  have "vmouse_frame_aligned d2"
    by (rule vmouse_tasklet_handler_frame_aligned
        [OF h vmouse_push_frame_aligned [OF "4.prems"(2)]])
  from "4.IH" [OF h r this] show ?case .
qed

lemma inject_packet_store_frame_aligned:
  assumes r: "inject_packet_store d toks sched = Some (Inr d')"
    and a: "vmouse_frame_aligned d"
  shows "vmouse_frame_aligned d'"
  using r
proof (cases rule: inject_packet_store_cases)
  case (1 bytes x)
  let ?t = "d\<lparr>current_packet_size := PACKET_SIZE_STANDARD\<rparr>"
  have "vmouse_frame_ok ?t" using a by (simp add: vmouse_frame_aligned_def vmouse_frame_ok_def)
  then have "vmouse_frame_ok x" by (rule simulate_irqs_frame_ok [OF "1"(3)])
  then show ?thesis
    using "1"(2) by (simp add: "1"(4) vmouse_frame_aligned_def vmouse_frame_ok_def)
next
  case (2 bytes)
  from simulate_irqs_frame_aligned [OF "2"(2) a] show ?thesis .
qed

lemma vmouse_step_frame_aligned:
  assumes s: "vmouse_step op d = Some d'" and a: "vmouse_frame_aligned d"
  shows "vmouse_frame_aligned d'"
proof (cases op)
  case (Simulate_irq b)
  then show ?thesis using s vmouse_push_frame_aligned [OF a] by auto
next
  case Run_tasklet
  then show ?thesis using s vmouse_tasklet_handler_frame_aligned [OF _ a] by simp
next
  case (Inject_packet toks sched)
  then consider "d' = d" | "inject_packet_store d toks sched = Some (Inr d')"
    using s by (auto split: option.splits sum.splits)
  then show ?thesis
  proof cases
    case 1
    then show ?thesis using a by simp
  next
    case 2
    then show ?thesis using a by (rule inject_packet_store_frame_aligned)
  qed
next
  case (Dpi buf)
  then show ?thesis using s a
    by (auto simp: dpi_store_def vmouse_frame_aligned_def vmouse_frame_ok_def
        split: option.splits if_splits)
next
  case (Intellimouse buf)
  show ?thesis
  proof (cases buf)
    case None
    then show ?thesis using s a Intellimouse by (simp add: intellimouse_store_def)
  next
    case (Some val)
    then have "d' = d\<lparr>intellimouse_mode := (val \<noteq> 0),
        current_packet_size :=
          (if val \<noteq> 0 then PACKET_SIZE_INTELLIMOUSE else PACKET_SIZE_STANDARD),
        packet_idx := 0\<rparr>"
      using s Intellimouse by (simp add: intellimouse_store_def)
    then show ?thesis using a
      by (cases "val = 0")
        (simp_all add: vmouse_frame_aligned_def vmouse_frame_ok_def ps2_defs)
  qed
qed

lemma vmouse_init_frame_aligned: "vmouse_frame_aligned (vmouse_init dpi im)"
  by (simp add: vmouse_frame_aligned_def vmouse_frame_ok_def vmouse_init_def ps2_defs)

lemma vmouse_run_frame_aligned:
  "vmouse_run ops d = Some d' \<Longrightarrow> vmouse_frame_aligned d \<Longrightarrow> vmouse_frame_aligned d'"
proof (induction ops arbitrary: d)
  case Nil
  then show ?case by simp
next
  case (Cons op ops)
  from Cons.prems(1) obtain d1 where s: "vmouse_step op d = Some d1"
    and r: "vmouse_run ops d1 = Some d'"
    by (auto split: option.splits)
  from Cons.IH [OF r vmouse_step_frame_aligned [OF s Cons.prems(2)]] show ?case .
qed

lemma fill_index_below_packet_size:
  "vmouse_run ops (vmouse_init dpi im) = Some d \<Longrightarrow> packet_idx d < current_packet_size d"
  using vmouse_run_frame_aligned [OF _ vmouse_init_frame_aligned]
  by (simp add: vmouse_frame_aligned_def)


text \<open>
  When the tasklet does run after each of the three pushes, before the size is set back,
  the packet is decoded as the 3-byte frame that the write intends. With the fill index
  left at 3 by the run above, the same schedule decodes a frame under the size 3 from
  bytes that were stored under the size 4; the byte pushed first only sets off that
  decoding and is part of no frame.
\<close>

lemma inject_three_bytes_tasklet_at_once:
  "\<exists>d1. inject_packet_store (vmouse_init 100 True) [Some 9, Some 10, Some 5]
            [True, True, True] = Some (Inr d1) \<and>
        current_packet_size d1 = 4 \<and> packet_idx d1 = 0 \<and> total_packets d1 = 1 \<and>
        input d1 = [Report_key BTN_LEFT True, Report_key BTN_RIGHT False,
                    Report_key BTN_MIDDLE False, Report_key BTN_SIDE False,
                    Report_key BTN_EXTRA False, Report_rel REL_X 10, Report_rel REL_Y (- 5),
                    Input_sync]"
  by (simp add: inject_packet_store_def parse_bytes_numeral Let_def queue_eval handler_eval
      vmouse_init_packet mouse_eval)

lemma inject_after_misalignment:
  "\<exists>d1 d2 d3.
     inject_packet_store (vmouse_init 100 True) [Some 9, Some 10, Some 5] [] = Some (Inr d1) \<and>
     vmouse_tasklet_handler d1 = Some d2 \<and> packet_idx d2 = 3 \<and>
     inject_packet_store d2 [Some 8, Some 1, Some 1] [True, True, True] = Some (Inr d3) \<and>
     packet d3 = [1, 1, 5, 8] \<and> packet_idx d3 = 2 \<and> total_packets d3 = 1 \<and>
     input d3 = [Report_key BTN_LEFT True, Report_key BTN_RIGHT False,
                 Report_key BTN_MIDDLE False, Report_key BTN_SIDE False,
                 Report_key BTN_EXTRA False, Report_rel REL_X 10, Report_rel REL_Y (- 5),
                 Input_sync]"
  by (simp add: inject_packet_store_def parse_bytes_numeral Let_def queue_eval handler_eval
      vmouse_init_packet mouse_eval)

end
